theory Spec2Isabelle
  imports Main "HOL-Library.Word"
begin

unbundle bit_operations_syntax

section \<open>Machine types and engine configuration\<close>

text \<open>
  The SGDK integer types. A signed type and the unsigned type of the same width share
  one word type; \<open>sint\<close> reads a signed value and \<open>unat\<close> an unsigned one. The target
  compiler (m68k gcc) has a 32-bit \<open>int\<close>, so arithmetic on \<open>s16\<close> operands is done
  without overflow in \<open>int\<close> and only an assignment to an \<open>s16\<close> variable truncates.
\<close>

type_synonym u8 = "8 word"
type_synonym s8 = "8 word"
type_synonym u16 = "16 word"
type_synonym s16 = "16 word"
type_synonym s32 = "32 word"

text \<open>The constants of \<^verbatim>\<open>engine/config.h\<close>, as the preprocessor substitutes them.\<close>

abbreviation (input) MAX_ENTITIES :: nat where "MAX_ENTITIES \<equiv> 64"
abbreviation (input) MAP_WIDTH :: int where "MAP_WIDTH \<equiv> 1280"
abbreviation (input) MAP_HEIGHT :: int where "MAP_HEIGHT \<equiv> 896"

abbreviation (input) SLOT_PLAYER :: u8 where "SLOT_PLAYER \<equiv> 0"
abbreviation (input) SLOT_FENRIR :: u8 where "SLOT_FENRIR \<equiv> 1"
abbreviation (input) SLOT_ENEMIES_START :: u8 where "SLOT_ENEMIES_START \<equiv> 2"
abbreviation (input) SLOT_ENEMIES_END :: u8 where "SLOT_ENEMIES_END \<equiv> 25"
abbreviation (input) SLOT_PROJ_START :: u8 where "SLOT_PROJ_START \<equiv> 26"
abbreviation (input) SLOT_PROJ_END :: u8 where "SLOT_PROJ_END \<equiv> 57"
abbreviation (input) SLOT_TOWERS_START :: u8 where "SLOT_TOWERS_START \<equiv> 58"

text \<open>Entity flags, collision masks and type tags of \<^verbatim>\<open>engine/entity.h\<close>.\<close>

abbreviation (input) ENT_ACTIVE :: u8 where "ENT_ACTIVE \<equiv> 0x01"
abbreviation (input) ENT_VISIBLE :: u8 where "ENT_VISIBLE \<equiv> 0x02"

abbreviation (input) COLL_NONE :: u8 where "COLL_NONE \<equiv> 0x00"
abbreviation (input) COLL_PLAYER :: u8 where "COLL_PLAYER \<equiv> 0x01"
abbreviation (input) COLL_ENEMY :: u8 where "COLL_ENEMY \<equiv> 0x02"
abbreviation (input) COLL_PROJ_PLR :: u8 where "COLL_PROJ_PLR \<equiv> 0x04"
abbreviation (input) COLL_PROJ_ENY :: u8 where "COLL_PROJ_ENY \<equiv> 0x08"
abbreviation (input) COLL_PICKUP :: u8 where "COLL_PICKUP \<equiv> 0x10"
abbreviation (input) COLL_TOWER :: u8 where "COLL_TOWER \<equiv> 0x20"
abbreviation (input) COLL_FENRIR :: u8 where "COLL_FENRIR \<equiv> 0x40"

abbreviation (input) ENT_TYPE_NONE :: u8 where "ENT_TYPE_NONE \<equiv> 0x00"
abbreviation (input) ENT_TYPE_PLAYER :: u8 where "ENT_TYPE_PLAYER \<equiv> 0x10"
abbreviation (input) ENT_TYPE_FENRIR :: u8 where "ENT_TYPE_FENRIR \<equiv> 0x11"
abbreviation (input) ENT_TYPE_ENEMY_BASIC :: u8 where "ENT_TYPE_ENEMY_BASIC \<equiv> 0x20"
abbreviation (input) ENT_TYPE_PROJ_PLAYER :: u8 where "ENT_TYPE_PROJ_PLAYER \<equiv> 0x30"
abbreviation (input) ENT_TYPE_TOWER_BASIC :: u8 where "ENT_TYPE_TOWER_BASIC \<equiv> 0x40"

section \<open>Arrays with declared bounds\<close>

text \<open>
  A C array is a list of its declared length. The source never checks an index by
  itself; an access outside the declared bounds is undefined behaviour in C and is a
  \<open>fault\<close> of the model, carrying the offending index.
\<close>

datatype fault = OutOfBounds nat

definition arr_read :: "'a list \<Rightarrow> nat \<Rightarrow> fault + 'a" where
  "arr_read xs i = (if i < length xs then Inr (xs ! i) else Inl (OutOfBounds i))"

definition arr_write :: "'a list \<Rightarrow> nat \<Rightarrow> 'a \<Rightarrow> fault + 'a list" where
  "arr_write xs i v = (if i < length xs then Inr (xs[i := v]) else Inl (OutOfBounds i))"

section \<open>The entity pool (\<^verbatim>\<open>engine/entity.c\<close>)\<close>

text \<open>
  The 24-byte \<^verbatim>\<open>Entity\<close> struct. The fields \<^verbatim>\<open>type\<close>, \<^verbatim>\<open>x\<close> and \<^verbatim>\<open>y\<close> are
  named \<open>etype\<close>, \<open>xpos\<close> and \<open>ypos\<close> here, the others keep their names.
\<close>

record Entity =
  flags :: u8
  etype :: u8
  timer :: u8
  frame :: u8
  xpos :: s32
  ypos :: s32
  vx :: s16
  vy :: s16
  hp :: s16
  data :: u16
  width :: u8
  height :: u8
  spriteId :: u8
  collMask :: u8

text \<open>
  The globals \<^verbatim>\<open>entities[MAX_ENTITIES]\<close> and \<^verbatim>\<open>entityCount\<close>. The player and
  companion side tables, which \<^verbatim>\<open>entity_initPool\<close> also clears, play no part in
  allocation and are left out.
\<close>

record EntityPool =
  entities :: "Entity list"
  entityCount :: u8

definition zero_entity :: Entity where
  "zero_entity = \<lparr>flags = 0, etype = 0, timer = 0, frame = 0, xpos = 0, ypos = 0,
     vx = 0, vy = 0, hp = 0, data = 0, width = 0, height = 0, spriteId = 0,
     collMask = 0\<rparr>"

definition entity_initPool :: EntityPool where
  "entity_initPool = \<lparr>entities = replicate MAX_ENTITIES zero_entity, entityCount = 0\<rparr>"

definition is_active :: "Entity \<Rightarrow> bool" where
  "is_active e \<longleftrightarrow> flags e AND ENT_ACTIVE \<noteq> 0"

text \<open>The \<^verbatim>\<open>switch (type & 0xF0)\<close> of \<^verbatim>\<open>entity_alloc\<close>: the pair \<open>(start, end)\<close>.\<close>

definition slot_range :: "u8 \<Rightarrow> u8 \<times> u8" where
  "slot_range ty =
     (if ty AND 0xF0 = 0x10 then (SLOT_PLAYER, SLOT_FENRIR + 1)
      else if ty AND 0xF0 = 0x20 then (SLOT_ENEMIES_START, SLOT_ENEMIES_END + 1)
      else if ty AND 0xF0 = 0x30 then (SLOT_PROJ_START, SLOT_PROJ_END + 1)
      else (SLOT_TOWERS_START, word_of_nat MAX_ENTITIES))"

text \<open>The assignments made to the slot that the scan found free.\<close>

definition default_hitbox :: "u8 \<Rightarrow> u8 \<times> u8 \<times> u8" where
  "default_hitbox ty =
     (if ty AND 0xF0 = ENT_TYPE_PLAYER then
        (16, 16, if ty = ENT_TYPE_PLAYER then COLL_PLAYER else COLL_FENRIR)
      else if ty AND 0xF0 = ENT_TYPE_ENEMY_BASIC then (24, 24, COLL_ENEMY)
      else if ty AND 0xF0 = ENT_TYPE_PROJ_PLAYER then
        (12, 12, if ty = ENT_TYPE_PROJ_PLAYER then COLL_PROJ_PLR else COLL_PROJ_ENY)
      else if ty AND 0xF0 = ENT_TYPE_TOWER_BASIC then (64, 64, COLL_TOWER)
      else if ty AND 0xF0 = 0x60 then (16, 16, COLL_PICKUP)
      else (16, 16, COLL_NONE))"

definition claim_slot :: "u8 \<Rightarrow> Entity \<Rightarrow> Entity" where
  "claim_slot ty e =
     (case default_hitbox ty of (w, h, m) \<Rightarrow>
        e\<lparr>flags := ENT_ACTIVE OR ENT_VISIBLE, etype := ty, timer := 0, data := 0,
          width := w, height := h, collMask := m\<rparr>)"

text \<open>
  The scan \<^verbatim>\<open>for (u8 i = start; i < end; i++)\<close>. It returns the slot as \<^verbatim>\<open>s8\<close>
  together with the pool, or \<open>-1\<close> and the pool as it was.
\<close>

function alloc_scan :: "u8 \<Rightarrow> u8 \<Rightarrow> u8 \<Rightarrow> EntityPool \<Rightarrow> fault + (s8 \<times> EntityPool)" where
  "alloc_scan ty i end p =
     (if i < end then
        (case arr_read (entities p) (unat i) of
           Inl f \<Rightarrow> Inl f
         | Inr e \<Rightarrow>
             if \<not> is_active e then
               Inr (i, p\<lparr>entities := (entities p)[unat i := claim_slot ty e],
                         entityCount := entityCount p + 1\<rparr>)
             else alloc_scan ty (i + 1) end p)
      else Inr (- 1, p))"
  by pat_completeness auto
termination
proof (relation "measure (\<lambda>(ty, i, end, p). unat end - unat i)")
  show "wf (measure (\<lambda>(ty, i, end, p). unat end - unat i))" by simp
next
  fix ty i "end" :: u8 and p :: EntityPool and x2 :: Entity
  assume lt: "i < end"
  then have "unat i < unat end" by (simp add: word_less_nat_alt)
  moreover have "unat end < 2 ^ LENGTH(8)" by (rule unsigned_less)
  ultimately have "unat i + unat (1 :: u8) < 2 ^ LENGTH(8)" by simp
  then have "unat (i + 1) = unat i + 1"
    by (simp add: unat_add_lem [THEN iffD1])
  with \<open>unat i < unat end\<close>
  show "((ty, i + 1, end, p), (ty, i, end, p)) \<in> measure (\<lambda>(ty, i, end, p). unat end - unat i)"
    by simp
qed

definition entity_alloc :: "u8 \<Rightarrow> EntityPool \<Rightarrow> fault + (s8 \<times> EntityPool)" where
  "entity_alloc ty p = (case slot_range ty of (start, end) \<Rightarrow> alloc_scan ty start end p)"

definition entity_free :: "u8 \<Rightarrow> EntityPool \<Rightarrow> fault + EntityPool" where
  "entity_free slot p =
     (if unat slot < MAX_ENTITIES then
        (case arr_read (entities p) (unat slot) of
           Inl f \<Rightarrow> Inl f
         | Inr e \<Rightarrow>
             if is_active e then
               Inr (p\<lparr>entities := (entities p)[unat slot := e\<lparr>flags := 0, etype := ENT_TYPE_NONE\<rparr>],
                       entityCount := (if entityCount p > 0 then entityCount p - 1
                                       else entityCount p)\<rparr>)
             else Inr p)
      else Inr p)"

section \<open>The spatial grid (\<^verbatim>\<open>engine/spatial.h\<close>, \<^verbatim>\<open>engine/spatial.c\<close>)\<close>

abbreviation (input) SPATIAL_CELL_SHIFT :: nat where "SPATIAL_CELL_SHIFT \<equiv> 6"
abbreviation (input) SPATIAL_GRID_W_SHIFT :: nat where "SPATIAL_GRID_W_SHIFT \<equiv> 5"
abbreviation (input) SPATIAL_GRID_W :: u8 where "SPATIAL_GRID_W \<equiv> 32"
abbreviation (input) SPATIAL_GRID_H :: u8 where "SPATIAL_GRID_H \<equiv> 16"
abbreviation (input) SPATIAL_GRID_CELLS :: nat where "SPATIAL_GRID_CELLS \<equiv> 512"
abbreviation (input) SPATIAL_NULL :: u8 where "SPATIAL_NULL \<equiv> 0xFF"

record SpatialGrid =
  firstInCell :: "u8 list"
  nextEntity :: "u8 list"

text \<open>\<^verbatim>\<open>spatial_clear\<close>: both arrays are filled with \<^verbatim>\<open>SPATIAL_NULL\<close>.\<close>

definition spatial_clear :: SpatialGrid where
  "spatial_clear = \<lparr>firstInCell = replicate SPATIAL_GRID_CELLS SPATIAL_NULL,
                     nextEntity = replicate MAX_ENTITIES SPATIAL_NULL\<rparr>"

text \<open>
  \<^verbatim>\<open>FP_INT(v)\<close> stored into an \<^verbatim>\<open>s16\<close>: the arithmetic shift of the 8.8 fixed-point
  value, truncated to its low 16 bits.
\<close>

definition FP_INT16 :: "s32 \<Rightarrow> s16" where
  "FP_INT16 v = ucast (signed_drop_bit 8 v)"

definition clamp_px :: "int \<Rightarrow> s16 \<Rightarrow> s16" where
  "clamp_px bound px =
     (let px1 = (if px <s 0 then 0 else px)
      in if bound \<le> sint px1 then word_of_int (bound - 1) else px1)"

definition cell_coord :: "u8 \<Rightarrow> s16 \<Rightarrow> u8" where
  "cell_coord cells px =
     (let c = (ucast (signed_drop_bit SPATIAL_CELL_SHIFT px) :: u8)
      in if cells \<le> c then cells - 1 else c)"

definition spatial_getCellIndex :: "s32 \<Rightarrow> s32 \<Rightarrow> u16" where
  "spatial_getCellIndex x y =
     (let px = clamp_px MAP_WIDTH (FP_INT16 x);
          py = clamp_px MAP_HEIGHT (FP_INT16 y);
          cellX = cell_coord SPATIAL_GRID_W px;
          cellY = cell_coord SPATIAL_GRID_H py
      in word_of_nat (unat cellX + push_bit SPATIAL_GRID_W_SHIFT (unat cellY)))"

text \<open>
  \<^verbatim>\<open>spatial_insert\<close> prepends the slot to its cell's list. The source indexes both
  arrays without a check.
\<close>

definition spatial_insert :: "u8 \<Rightarrow> s32 \<Rightarrow> s32 \<Rightarrow> SpatialGrid \<Rightarrow> fault + SpatialGrid" where
  "spatial_insert slot x y g =
     (let cellIndex = spatial_getCellIndex x y
      in case arr_read (firstInCell g) (unat cellIndex) of
           Inl f \<Rightarrow> Inl f
         | Inr head \<Rightarrow>
             (case arr_write (nextEntity g) (unat slot) head of
                Inl f \<Rightarrow> Inl f
              | Inr nx \<Rightarrow>
                  (case arr_write (firstInCell g) (unat cellIndex) slot of
                     Inl f \<Rightarrow> Inl f
                   | Inr fc \<Rightarrow> Inr \<lparr>firstInCell = fc, nextEntity = nx\<rparr>)))"

definition spatial_getFirstInCell :: "u16 \<Rightarrow> SpatialGrid \<Rightarrow> fault + u16" where
  "spatial_getFirstInCell cellIndex g =
     (if SPATIAL_GRID_CELLS \<le> unat cellIndex then Inr (ucast SPATIAL_NULL)
      else case arr_read (firstInCell g) (unat cellIndex) of
             Inl f \<Rightarrow> Inl f
           | Inr s \<Rightarrow> Inr (ucast s))"

section \<open>The three-gate collision query (\<^verbatim>\<open>spatial_checkCollisionThreeGate\<close>)\<close>

text \<open>The half extent \<^verbatim>\<open>width >> 1\<close> stored into an \<^verbatim>\<open>s16\<close>.\<close>

definition half_extent :: "u8 \<Rightarrow> s16" where
  "half_extent w = ucast (drop_bit 1 w)"

text \<open>\<^verbatim>\<open>if (d < 0) d = -d;\<close> on an \<^verbatim>\<open>s16\<close>.\<close>

definition abs16 :: "s16 \<Rightarrow> s16" where
  "abs16 d = (if d <s 0 then word_of_int (- sint d) else d)"

definition manhattan_max :: "Entity \<Rightarrow> s16" where
  "manhattan_max source =
     word_of_int (sint (half_extent (width source)) + sint (half_extent (height source)) + 32)"

definition delta_x :: "Entity \<Rightarrow> Entity \<Rightarrow> s16" where
  "delta_x source target =
     abs16 (word_of_int (sint (FP_INT16 (xpos source)) - sint (FP_INT16 (xpos target))))"

definition delta_y :: "Entity \<Rightarrow> Entity \<Rightarrow> s16" where
  "delta_y source target =
     abs16 (word_of_int (sint (FP_INT16 (ypos source)) - sint (FP_INT16 (ypos target))))"

text \<open>Gate 1, the class filter \<^verbatim>\<open>target->collMask & targetMask\<close>.\<close>

definition gate1 :: "u8 \<Rightarrow> Entity \<Rightarrow> bool" where
  "gate1 targetMask target \<longleftrightarrow> collMask target AND targetMask \<noteq> 0"

text \<open>Gate 2, the Manhattan pre-check \<^verbatim>\<open>dx + dy < manhattanMax\<close>.\<close>

definition gate2 :: "Entity \<Rightarrow> Entity \<Rightarrow> bool" where
  "gate2 source target \<longleftrightarrow>
     sint (delta_x source target) + sint (delta_y source target) < sint (manhattan_max source)"

text \<open>Gate 3, the exact test \<^verbatim>\<open>dx < combinedW && dy < combinedH\<close>.\<close>

definition gate3 :: "Entity \<Rightarrow> Entity \<Rightarrow> bool" where
  "gate3 source target \<longleftrightarrow>
     (let combinedW = (word_of_int (sint (half_extent (width source))
                          + sint (half_extent (width target))) :: s16);
          combinedH = (word_of_int (sint (half_extent (height source))
                          + sint (half_extent (height target))) :: s16)
      in delta_x source target <s combinedW \<and> delta_y source target <s combinedH)"

text \<open>The frame staggering test \<^verbatim>\<open>(slot & 1) == (frameCount & 1)\<close>.\<close>

definition parity_match :: "u8 \<Rightarrow> u16 \<Rightarrow> bool" where
  "parity_match slot frameCount \<longleftrightarrow> unat (slot AND 1) = unat (frameCount AND 1)"

text \<open>
  The body of the \<^verbatim>\<open>while\<close> loop for one candidate slot: \<open>Inr True\<close> when the loop
  returns this slot, \<open>Inr False\<close> when it moves on to the next one. The target is
  read only after the staggering test and the self test have passed.
\<close>

definition examine :: "Entity list \<Rightarrow> u8 \<Rightarrow> Entity \<Rightarrow> u8 \<Rightarrow> u16 \<Rightarrow> u8 \<Rightarrow> fault + bool" where
  "examine es sourceSlot source targetMask frameCount slot =
     (if parity_match slot frameCount then
        if slot \<noteq> sourceSlot then
          (case arr_read es (unat slot) of
             Inl f \<Rightarrow> Inl f
           | Inr target \<Rightarrow>
               Inr (is_active target \<and> gate1 targetMask target
                    \<and> gate2 source target \<and> gate3 source target))
        else Inr False
      else Inr False)"

text \<open>
  The walk over the intrusive list of one cell. A list with a cycle makes the source
  loop forever; the value \<open>None\<close> stands for that.
\<close>

partial_function (option) walk_cell ::
  "Entity list \<Rightarrow> u8 list \<Rightarrow> u8 \<Rightarrow> Entity \<Rightarrow> u8 \<Rightarrow> u16 \<Rightarrow> u8 \<Rightarrow> (fault + u8) option" where
  "walk_cell es nxt sourceSlot source targetMask frameCount slot =
     (if slot \<noteq> SPATIAL_NULL then
        (case examine es sourceSlot source targetMask frameCount slot of
           Inl f \<Rightarrow> Some (Inl f)
         | Inr hit \<Rightarrow>
             if hit then Some (Inr slot)
             else (case arr_read nxt (unat slot) of
                     Inl f \<Rightarrow> Some (Inl f)
                   | Inr n \<Rightarrow> walk_cell es nxt sourceSlot source targetMask frameCount n))
      else Some (Inr 0xFF))"

declare walk_cell.simps [code]

definition spatial_checkCollisionThreeGate ::
  "Entity list \<Rightarrow> SpatialGrid \<Rightarrow> u8 \<Rightarrow> u8 \<Rightarrow> u16 \<Rightarrow> (fault + u8) option" where
  "spatial_checkCollisionThreeGate es g sourceSlot targetMask frameCount =
     (case arr_read es (unat sourceSlot) of
        Inl f \<Rightarrow> Some (Inl f)
      | Inr source \<Rightarrow>
          (case arr_read (firstInCell g)
                  (unat (spatial_getCellIndex (xpos source) (ypos source))) of
             Inl f \<Rightarrow> Some (Inl f)
           | Inr slot \<Rightarrow>
               walk_cell es (nextEntity g) sourceSlot source targetMask frameCount slot))"

section \<open>States named in the statements\<close>

text \<open>
  The pool after the scan has claimed slot \<open>k\<close>, and the pool after \<^verbatim>\<open>entity_free\<close>
  has released it: the two updates that the source makes in place.
\<close>

definition claimed :: "u8 \<Rightarrow> nat \<Rightarrow> EntityPool \<Rightarrow> EntityPool" where
  "claimed ty k p = p\<lparr>entities := (entities p)[k := claim_slot ty (entities p ! k)],
                      entityCount := entityCount p + 1\<rparr>"

definition freed :: "nat \<Rightarrow> EntityPool \<Rightarrow> EntityPool" where
  "freed k p = p\<lparr>entities := (entities p)[k := (entities p ! k)\<lparr>flags := 0, etype := ENT_TYPE_NONE\<rparr>],
                   entityCount := (if entityCount p > 0 then entityCount p - 1 else entityCount p)\<rparr>"

text \<open>The pool with one enemy, in the first slot of the enemy range.\<close>

definition enemy_pool :: EntityPool where
  "enemy_pool = claimed ENT_TYPE_ENEMY_BASIC 2 entity_initPool"

text \<open>The pool right after \<^verbatim>\<open>player_spawn\<close> has allocated the player.\<close>

definition player_pool :: EntityPool where
  "player_pool = claimed ENT_TYPE_PLAYER 0 entity_initPool"

text \<open>
  The pool with one enemy after the game layer has written a velocity of 1.5 pixels
  per frame into its slot (\<^verbatim>\<open>enemy->vx = ...\<close>).
\<close>

definition moving_enemy_pool :: EntityPool where
  "moving_enemy_pool =
     enemy_pool\<lparr>entities := (entities enemy_pool)[2 := (entities enemy_pool ! 2)\<lparr>vx := 0x0180, vy := 0x0180\<rparr>]\<rparr>"

text \<open>
  The pool in which the scan has claimed the slots \<open>0, \<dots>, n - 1\<close> one after the other,
  starting from the cleared pool.
\<close>

fun filled :: "u8 \<Rightarrow> nat \<Rightarrow> EntityPool" where
  "filled ty 0 = entity_initPool"
| "filled ty (Suc n) = claimed ty n (filled ty n)"

text \<open>The number of entities whose \<^verbatim>\<open>ENT_ACTIVE\<close> flag is set.\<close>

definition active_count :: "EntityPool \<Rightarrow> nat" where
  "active_count p = length (filter is_active (entities p))"

text \<open>
  The pools that the program can reach from \<^verbatim>\<open>entity_initPool\<close>: by a call of
  \<^verbatim>\<open>entity_alloc\<close> or \<^verbatim>\<open>entity_free\<close>, or by a write of the game layer to the
  entity array that leaves every \<^verbatim>\<open>flags\<close> field as it is.
\<close>

inductive reachable :: "EntityPool \<Rightarrow> bool" where
  init: "reachable entity_initPool"
| alloc: "reachable p \<Longrightarrow> entity_alloc ty p = Inr (r, p') \<Longrightarrow> reachable p'"
| free: "reachable p \<Longrightarrow> entity_free slot p = Inr p' \<Longrightarrow> reachable p'"
| external: "reachable p \<Longrightarrow> map flags es = map flags (entities p) \<Longrightarrow> reachable (p\<lparr>entities := es\<rparr>)"

text \<open>The invariant of the pool.\<close>

definition pool_inv :: "EntityPool \<Rightarrow> bool" where
  "pool_inv p \<longleftrightarrow> length (entities p) = MAX_ENTITIES \<and> unat (entityCount p) = active_count p"

text \<open>
  The slots that the walk visits from \<open>a\<close> before it arrives at \<open>b\<close>, following the
  \<^verbatim>\<open>nextEntity\<close> links: each of them is a slot of the array and not the end marker.
\<close>

fun cell_path :: "u8 list \<Rightarrow> u8 \<Rightarrow> u8 list \<Rightarrow> u8 \<Rightarrow> bool" where
  "cell_path nxt a [] b \<longleftrightarrow> a = b"
| "cell_path nxt a (u # us) b \<longleftrightarrow>
     a = u \<and> u \<noteq> SPATIAL_NULL \<and> unat u < length nxt \<and> cell_path nxt (nxt ! unat u) us b"

text \<open>
  A candidate passes when the self test, the active test and the three gates of the
  loop body all hold for it; the staggering test is kept apart.
\<close>

definition passes :: "Entity list \<Rightarrow> u8 \<Rightarrow> u8 \<Rightarrow> u8 \<Rightarrow> bool" where
  "passes es sourceSlot targetMask slot \<longleftrightarrow>
     slot \<noteq> sourceSlot \<and> is_active (es ! unat slot)
     \<and> gate1 targetMask (es ! unat slot)
     \<and> gate2 (es ! unat sourceSlot) (es ! unat slot)
     \<and> gate3 (es ! unat sourceSlot) (es ! unat slot)"

text \<open>
  The player (16 by 16) at pixel (140, 140) and a tower with the default 64 by 64 hitbox
  at pixel (170, 170), both in cell 66, and the grid after both were inserted.
\<close>

definition scene_entities :: "Entity list" where
  "scene_entities =
     (entities entity_initPool)
       [0 := (claim_slot ENT_TYPE_PLAYER zero_entity)\<lparr>xpos := 0x8C00, ypos := 0x8C00\<rparr>,
        58 := (claim_slot ENT_TYPE_TOWER_BASIC zero_entity)\<lparr>xpos := 0xAA00, ypos := 0xAA00\<rparr>]"

definition scene_grid :: SpatialGrid where
  "scene_grid = \<lparr>firstInCell = (firstInCell spatial_clear)[66 := 58],
                  nextEntity = (nextEntity spatial_clear)[0 := SPATIAL_NULL, 58 := 0]\<rparr>"

text \<open>
  The player in slot 0 at pixel (100, 100) and the companion in slot 1 at pixel
  (110, 100), both 16 by 16 and in cell 33, and the grid after the companion and then
  the player were inserted.
\<close>

definition pair_entities :: "Entity list" where
  "pair_entities =
     (entities entity_initPool)
       [0 := (claim_slot ENT_TYPE_PLAYER zero_entity)\<lparr>xpos := 0x6400, ypos := 0x6400\<rparr>,
        1 := (claim_slot ENT_TYPE_FENRIR zero_entity)\<lparr>xpos := 0x6E00, ypos := 0x6400\<rparr>]"

definition pair_grid :: SpatialGrid where
  "pair_grid = \<lparr>firstInCell = (firstInCell spatial_clear)[33 := 0],
                 nextEntity = (nextEntity spatial_clear)[1 := SPATIAL_NULL, 0 := 1]\<rparr>"

text \<open>
  The player in slot 0 at pixel (60, 100) and the companion in slot 1 at pixel
  (66, 100), both 16 by 16: the boxes overlap, and the cell boundary at pixel 64 lies
  between the centres, so the player is in cell 32 and the companion in cell 33.
\<close>

definition straddle_entities :: "Entity list" where
  "straddle_entities =
     (entities entity_initPool)
       [0 := (claim_slot ENT_TYPE_PLAYER zero_entity)\<lparr>xpos := 0x3C00, ypos := 0x6400\<rparr>,
        1 := (claim_slot ENT_TYPE_FENRIR zero_entity)\<lparr>xpos := 0x4200, ypos := 0x6400\<rparr>]"

definition straddle_grid :: SpatialGrid where
  "straddle_grid = \<lparr>firstInCell = (firstInCell spatial_clear)[33 := 1, 32 := 0],
                     nextEntity = (nextEntity spatial_clear)[1 := SPATIAL_NULL, 0 := SPATIAL_NULL]\<rparr>"

text \<open>
  The player in slot 0 at pixel (100, 100) and two enemies, in the slots 3 and 5, both
  at pixel (104, 100); all three are in cell 33 and were inserted in the order 0, 3, 5,
  so that the list of the cell is 5, 3, 0.
\<close>

definition shadow_entities :: "Entity list" where
  "shadow_entities =
     (entities entity_initPool)
       [0 := (claim_slot ENT_TYPE_PLAYER zero_entity)\<lparr>xpos := 0x6400, ypos := 0x6400\<rparr>,
        3 := (claim_slot ENT_TYPE_ENEMY_BASIC zero_entity)\<lparr>xpos := 0x6800, ypos := 0x6400\<rparr>,
        5 := (claim_slot ENT_TYPE_ENEMY_BASIC zero_entity)\<lparr>xpos := 0x6800, ypos := 0x6400\<rparr>]"

definition shadow_grid :: SpatialGrid where
  "shadow_grid = \<lparr>firstInCell = (firstInCell spatial_clear)[33 := 5],
                   nextEntity = (nextEntity spatial_clear)[0 := SPATIAL_NULL, 3 := 0, 5 := 3]\<rparr>"

section \<open>The allocator scan\<close>

lemma u8_succ: "i < e \<Longrightarrow> unat (i + 1 :: u8) = unat i + 1" for i e :: u8
proof -
  assume "i < e"
  then have "unat i < unat e" by (simp add: word_less_nat_alt)
  moreover have "unat e < 2 ^ LENGTH(8)" by (rule unsigned_less)
  ultimately have "unat i + unat (1 :: u8) < 2 ^ LENGTH(8)" by simp
  then show ?thesis by (simp add: unat_add_lem [THEN iffD1])
qed

lemma alloc_scan_Inr:
  "alloc_scan ty i e p = Inr (r, p') \<Longrightarrow>
     (r = - 1 \<and> p' = p \<and> (\<forall>j. unat i \<le> j \<and> j < unat e \<longrightarrow> is_active (entities p ! j)))
   \<or> (unat i \<le> unat r \<and> unat r < unat e \<and> unat r < length (entities p)
      \<and> \<not> is_active (entities p ! unat r)
      \<and> (\<forall>j. unat i \<le> j \<and> j < unat r \<longrightarrow> is_active (entities p ! j))
      \<and> p' = claimed ty (unat r) p)"
proof (induction ty i e p rule: alloc_scan.induct)
  case (1 ty i e p)
  show ?case
  proof (cases "i < e")
    case False
    then have "unat e \<le> unat i" by (simp add: word_less_nat_alt)
    with False "1.prems" show ?thesis by auto
  next
    case lt: True
    then have ui: "unat i < unat e" by (simp add: word_less_nat_alt)
    show ?thesis
    proof (cases "unat i < length (entities p)")
      case False
      with lt "1.prems" show ?thesis by (simp add: arr_read_def)
    next
      case inb: True
      then have rd: "arr_read (entities p) (unat i) = Inr (entities p ! unat i)"
        by (simp add: arr_read_def)
      show ?thesis
      proof (cases "is_active (entities p ! unat i)")
        case False
        with lt rd "1.prems" have "r = i" "p' = claimed ty (unat i) p"
          by (auto simp: claimed_def)
        with False ui inb show ?thesis by auto
      next
        case act: True
        then have nn: "\<not> \<not> is_active (entities p ! unat i)" by simp
        from act lt rd "1.prems" have rec: "alloc_scan ty (i + 1) e p = Inr (r, p')" by simp
        have suc: "unat (i + 1) = unat i + 1" using lt by (rule u8_succ)
        from "1.IH" [OF lt rd nn rec]
        show ?thesis
        proof
          assume a: "r = - 1 \<and> p' = p \<and> (\<forall>j. unat (i + 1) \<le> j \<and> j < unat e \<longrightarrow> is_active (entities p ! j))"
          have "\<forall>j. unat i \<le> j \<and> j < unat e \<longrightarrow> is_active (entities p ! j)"
          proof (intro allI impI)
            fix j assume "unat i \<le> j \<and> j < unat e"
            then have "j = unat i \<or> (unat (i + 1) \<le> j \<and> j < unat e)" using suc by auto
            with a act show "is_active (entities p ! j)" by auto
          qed
          with a show ?thesis by simp
        next
          assume b: "unat (i + 1) \<le> unat r \<and> unat r < unat e \<and> unat r < length (entities p)
      \<and> \<not> is_active (entities p ! unat r)
      \<and> (\<forall>j. unat (i + 1) \<le> j \<and> j < unat r \<longrightarrow> is_active (entities p ! j))
      \<and> p' = claimed ty (unat r) p"
          have "\<forall>j. unat i \<le> j \<and> j < unat r \<longrightarrow> is_active (entities p ! j)"
          proof (intro allI impI)
            fix j assume "unat i \<le> j \<and> j < unat r"
            then have "j = unat i \<or> (unat (i + 1) \<le> j \<and> j < unat r)" using suc by auto
            with b act show "is_active (entities p ! j)" by auto
          qed
          with b suc show ?thesis by simp
        qed
      qed
    qed
  qed
qed

lemma alloc_scan_total:
  "unat e \<le> length (entities p) \<Longrightarrow> \<exists>r p'. alloc_scan ty i e p = Inr (r, p')"
proof (induction ty i e p rule: alloc_scan.induct)
  case (1 ty i e p)
  show ?case
  proof (cases "i < e")
    case False
    then show ?thesis by simp
  next
    case lt: True
    then have ui: "unat i < unat e" by (simp add: word_less_nat_alt)
    with "1.prems" have rd: "arr_read (entities p) (unat i) = Inr (entities p ! unat i)"
      by (simp add: arr_read_def)
    show ?thesis
    proof (cases "is_active (entities p ! unat i)")
      case False
      with lt rd show ?thesis by simp
    next
      case act: True
      then have nn: "\<not> \<not> is_active (entities p ! unat i)" by simp
      from "1.IH" [OF lt rd nn "1.prems"] lt rd act show ?thesis by simp
    qed
  qed
qed

lemma entity_free_cases:
  "length (entities p) = MAX_ENTITIES \<Longrightarrow>
   entity_free slot p =
     Inr (if unat slot < MAX_ENTITIES \<and> is_active (entities p ! unat slot)
          then freed (unat slot) p else p)"
  by (simp add: entity_free_def arr_read_def freed_def)

lemma length_freed [simp]: "length (entities (freed k p)) = length (entities p)"
  by (simp add: freed_def)

lemma length_claimed [simp]: "length (entities (claimed ty k p)) = length (entities p)"
  by (simp add: claimed_def)

lemma freed_inactive: "k < length (entities p) \<Longrightarrow> \<not> is_active (entities (freed k p) ! k)"
  by (simp add: freed_def is_active_def)

lemma claim_slot_active: "is_active (claim_slot ty e)"
  by (simp add: claim_slot_def is_active_def split: prod.splits)

lemma len_initPool: "length (entities entity_initPool) = MAX_ENTITIES"
  by (simp add: entity_initPool_def)

lemma len_enemy_pool: "length (entities enemy_pool) = MAX_ENTITIES"
  by (simp add: enemy_pool_def len_initPool)

lemma len_moving: "length (entities moving_enemy_pool) = MAX_ENTITIES"
  by (simp add: moving_enemy_pool_def len_enemy_pool)

lemma alloc_enemy_init: "entity_alloc ENT_TYPE_ENEMY_BASIC entity_initPool = Inr (2, enemy_pool)"
  by (simp add: entity_alloc_def slot_range_def enemy_pool_def claimed_def
      entity_initPool_def arr_read_def is_active_def zero_entity_def)

section \<open>Releasing a slot\<close>

text \<open>
  C8. Idempotent free: on every pool of the declared size and for every slot,
  \<^verbatim>\<open>entity_free(slot)\<close> returns a pool on which a second \<^verbatim>\<open>entity_free(slot)\<close>
  changes nothing, neither the entity array nor \<^verbatim>\<open>entityCount\<close>.
\<close>

theorem entity_free_idempotent:
  assumes "length (entities p) = MAX_ENTITIES"
  shows "\<exists>p'. entity_free slot p = Inr p' \<and> entity_free slot p' = Inr p'"
proof (cases "unat slot < MAX_ENTITIES \<and> is_active (entities p ! unat slot)")
  case True
  then have "entity_free slot p = Inr (freed (unat slot) p)"
    using assms by (simp add: entity_free_cases)
  moreover have "entity_free slot (freed (unat slot) p) = Inr (freed (unat slot) p)"
    using assms True by (simp add: entity_free_cases freed_inactive)
  ultimately show ?thesis by simp
next
  case False
  then have "entity_free slot p = Inr p"
    using assms by (auto simp: entity_free_cases)
  then show ?thesis by simp
qed

theorem entity_free_idempotent_witness:
  "length (entities enemy_pool) = MAX_ENTITIES
   \<and> entity_free 2 enemy_pool = Inr (freed 2 enemy_pool)
   \<and> freed 2 enemy_pool \<noteq> enemy_pool
   \<and> entity_free 2 (freed 2 enemy_pool) = Inr (freed 2 enemy_pool)"
proof -
  have len: "length (entities enemy_pool) = MAX_ENTITIES"
    by (simp add: enemy_pool_def entity_initPool_def)
  have one: "entity_free 2 enemy_pool = Inr (freed 2 enemy_pool)"
    by (simp add: entity_free_cases len)
       (simp add: enemy_pool_def claimed_def entity_initPool_def claim_slot_active)
  have ne: "freed 2 enemy_pool \<noteq> enemy_pool"
  proof
    assume "freed 2 enemy_pool = enemy_pool"
    then have "entityCount (freed 2 enemy_pool) = entityCount enemy_pool" by simp
    then show False by (simp add: freed_def enemy_pool_def claimed_def entity_initPool_def)
  qed
  from entity_free_idempotent [OF len, of 2] one ne len show ?thesis by auto
qed

text \<open>
  C3, as the source has it. \<^verbatim>\<open>entity_free\<close> guards the index and the active flag
  only: the player, allocated by \<^verbatim>\<open>entity_alloc(ENT_TYPE_PLAYER)\<close> into slot 0, is
  released by \<^verbatim>\<open>entity_free(0)\<close> like any other entity.
\<close>

theorem entity_free_player_counterexample:
  "entity_alloc ENT_TYPE_PLAYER entity_initPool = Inr (0, player_pool)
   \<and> is_active (entities player_pool ! 0)
   \<and> entity_free SLOT_PLAYER player_pool = Inr (freed 0 player_pool)
   \<and> \<not> is_active (entities (freed 0 player_pool) ! 0)
   \<and> entities (freed 0 player_pool) ! 0 \<noteq> entities player_pool ! 0"
proof -
  have len: "length (entities player_pool) = MAX_ENTITIES"
    by (simp add: player_pool_def entity_initPool_def)
  have a: "entity_alloc ENT_TYPE_PLAYER entity_initPool = Inr (0, player_pool)"
    by (simp add: entity_alloc_def slot_range_def player_pool_def claimed_def
        entity_initPool_def arr_read_def is_active_def zero_entity_def)
  have b: "is_active (entities player_pool ! 0)"
    by (simp add: player_pool_def claimed_def entity_initPool_def claim_slot_active)
  have c: "entity_free SLOT_PLAYER player_pool = Inr (freed 0 player_pool)"
    using b by (simp add: entity_free_cases len)
  have d: "\<not> is_active (entities (freed 0 player_pool) ! 0)"
    by (rule freed_inactive) (simp add: len)
  from b d have "entities (freed 0 player_pool) ! 0 \<noteq> entities player_pool ! 0"
    by auto
  with a b c d show ?thesis by simp
qed

text \<open>
  C3, amended: \<^verbatim>\<open>entity_free\<close> has no guard for the reserved player slot. On every
  pool of the declared size, \<^verbatim>\<open>entity_free(SLOT_PLAYER)\<close> on an active slot 0 clears
  that slot's flags and type tag, so that the slot is inactive afterwards, and
  decrements a positive \<^verbatim>\<open>entityCount\<close>; only an inactive slot 0 is left as it was.
\<close>

theorem entity_free_player_slot:
  assumes "length (entities p) = MAX_ENTITIES"
  shows "entity_free SLOT_PLAYER p
           = Inr (if is_active (entities p ! 0) then freed 0 p else p)
         \<and> (is_active (entities p ! 0) \<longrightarrow> \<not> is_active (entities (freed 0 p) ! 0))"
  using assms by (simp add: entity_free_cases freed_inactive)

theorem entity_free_player_slot_witness:
  "length (entities player_pool) = MAX_ENTITIES
   \<and> is_active (entities player_pool ! 0)
   \<and> entity_free SLOT_PLAYER player_pool = Inr (freed 0 player_pool)
   \<and> \<not> is_active (entities (freed 0 player_pool) ! 0)"
proof -
  have len: "length (entities player_pool) = MAX_ENTITIES"
    by (simp add: player_pool_def entity_initPool_def)
  have act: "is_active (entities player_pool ! 0)"
    by (simp add: player_pool_def claimed_def entity_initPool_def claim_slot_active)
  from entity_free_player_slot [OF len] len act show ?thesis by simp
qed

section \<open>Allocating a slot\<close>

lemma slot_range_bounds:
  "slot_range ty = (start, e) \<Longrightarrow> unat start \<le> unat e \<and> unat e \<le> MAX_ENTITIES"
  by (auto simp: slot_range_def split: if_splits)

lemma entity_alloc_result:
  assumes len: "length (entities p) = MAX_ENTITIES"
    and rng: "slot_range ty = (start, e)"
  shows "\<exists>r p'. entity_alloc ty p = Inr (r, p') \<and>
           ((r = - 1 \<and> p' = p
             \<and> (\<forall>j. unat start \<le> j \<and> j < unat e \<longrightarrow> is_active (entities p ! j)))
            \<or> (r \<noteq> - 1 \<and> unat start \<le> unat r \<and> unat r < unat e
                \<and> \<not> is_active (entities p ! unat r)
                \<and> (\<forall>j. unat start \<le> j \<and> j < unat r \<longrightarrow> is_active (entities p ! j))
                \<and> p' = claimed ty (unat r) p))"
proof -
  from slot_range_bounds [OF rng] len have le: "unat e \<le> length (entities p)" by simp
  from alloc_scan_total [OF le] obtain r p' where
    res: "alloc_scan ty start e p = Inr (r, p')" by blast
  have alloc: "entity_alloc ty p = Inr (r, p')"
    using res rng by (simp add: entity_alloc_def)
  from alloc_scan_Inr [OF res]
  show ?thesis
  proof
    assume "r = - 1 \<and> p' = p
      \<and> (\<forall>j. unat start \<le> j \<and> j < unat e \<longrightarrow> is_active (entities p ! j))"
    with alloc show ?thesis by blast
  next
    assume b: "unat start \<le> unat r \<and> unat r < unat e \<and> unat r < length (entities p)
      \<and> \<not> is_active (entities p ! unat r)
      \<and> (\<forall>j. unat start \<le> j \<and> j < unat r \<longrightarrow> is_active (entities p ! j))
      \<and> p' = claimed ty (unat r) p"
    then have "unat r < MAX_ENTITIES" using len by simp
    then have "r \<noteq> - 1"
      by (auto simp: unsigned_minus_1_eq_mask mask_eq_exp_minus_1)
    with alloc b show ?thesis by blast
  qed
qed

text \<open>
  C4, as the source has it. \<^verbatim>\<open>entity_alloc\<close> assigns \<^verbatim>\<open>flags\<close>, \<^verbatim>\<open>type\<close>,
  \<^verbatim>\<open>timer\<close>, \<^verbatim>\<open>data\<close>, the hitbox and the collision mask, and nothing else: a slot
  that is allocated, given a velocity, released and allocated again still holds that
  velocity.
\<close>

theorem entity_alloc_velocity_counterexample:
  "entity_alloc ENT_TYPE_ENEMY_BASIC entity_initPool = Inr (2, enemy_pool)
   \<and> entity_free 2 moving_enemy_pool = Inr (freed 2 moving_enemy_pool)
   \<and> entity_alloc ENT_TYPE_ENEMY_BASIC (freed 2 moving_enemy_pool)
       = Inr (2, claimed ENT_TYPE_ENEMY_BASIC 2 (freed 2 moving_enemy_pool))
   \<and> vx (entities (claimed ENT_TYPE_ENEMY_BASIC 2 (freed 2 moving_enemy_pool)) ! 2) = 0x0180
   \<and> vy (entities (claimed ENT_TYPE_ENEMY_BASIC 2 (freed 2 moving_enemy_pool)) ! 2) = 0x0180
   \<and> vx (entities (claimed ENT_TYPE_ENEMY_BASIC 2 (freed 2 moving_enemy_pool)) ! 2) \<noteq> 0"
proof -
  have act: "is_active (entities moving_enemy_pool ! 2)"
    by (simp add: moving_enemy_pool_def enemy_pool_def claimed_def entity_initPool_def
        is_active_def claim_slot_def default_hitbox_def)
  have fr: "entity_free 2 moving_enemy_pool = Inr (freed 2 moving_enemy_pool)"
    using act by (simp add: entity_free_cases len_moving)
  have al: "entity_alloc ENT_TYPE_ENEMY_BASIC (freed 2 moving_enemy_pool)
       = Inr (2, claimed ENT_TYPE_ENEMY_BASIC 2 (freed 2 moving_enemy_pool))"
    by (simp add: entity_alloc_def slot_range_def claimed_def freed_def moving_enemy_pool_def
        enemy_pool_def entity_initPool_def arr_read_def is_active_def)
  have v: "vx (entities (claimed ENT_TYPE_ENEMY_BASIC 2 (freed 2 moving_enemy_pool)) ! 2) = 0x0180"
    "vy (entities (claimed ENT_TYPE_ENEMY_BASIC 2 (freed 2 moving_enemy_pool)) ! 2) = 0x0180"
    by (simp_all add: claimed_def freed_def moving_enemy_pool_def
        enemy_pool_def entity_initPool_def claim_slot_def default_hitbox_def)
  from alloc_enemy_init fr al v show ?thesis by simp
qed

text \<open>
  C4, amended: for every type tag and every pool of the declared size with a free slot
  in the tag's range, \<^verbatim>\<open>entity_alloc\<close> returns a slot other than \<open>-1\<close>; that slot is
  marked active, carries the type tag, the default width, height and collision mask of
  the tag, and has \<^verbatim>\<open>data\<close> and \<^verbatim>\<open>timer\<close> zeroed.
\<close>

theorem entity_alloc_postcondition:
  assumes len: "length (entities p) = MAX_ENTITIES"
    and rng: "slot_range ty = (start, e)"
    and free: "unat start \<le> j" "j < unat e" "\<not> is_active (entities p ! j)"
  shows "\<exists>r p'. entity_alloc ty p = Inr (r, p') \<and> r \<noteq> - 1 \<and> unat r < MAX_ENTITIES
           \<and> is_active (entities p' ! unat r)
           \<and> etype (entities p' ! unat r) = ty
           \<and> (width (entities p' ! unat r), height (entities p' ! unat r),
               collMask (entities p' ! unat r)) = default_hitbox ty
           \<and> data (entities p' ! unat r) = 0
           \<and> timer (entities p' ! unat r) = 0"
proof -
  from entity_alloc_result [OF len rng] obtain r p' where
    alloc: "entity_alloc ty p = Inr (r, p')" and
    cases: "(r = - 1 \<and> p' = p
             \<and> (\<forall>j. unat start \<le> j \<and> j < unat e \<longrightarrow> is_active (entities p ! j)))
            \<or> (r \<noteq> - 1 \<and> unat start \<le> unat r \<and> unat r < unat e
                \<and> \<not> is_active (entities p ! unat r)
                \<and> (\<forall>j. unat start \<le> j \<and> j < unat r \<longrightarrow> is_active (entities p ! j))
                \<and> p' = claimed ty (unat r) p)" by blast
  from cases free have ok: "r \<noteq> - 1" "unat r < unat e" "p' = claimed ty (unat r) p"
    by auto
  from slot_range_bounds [OF rng] ok(2) have inb: "unat r < MAX_ENTITIES" by simp
  then have inl: "unat r < length (entities p)" using len by simp
  have slot: "entities p' ! unat r = claim_slot ty (entities p ! unat r)"
    using ok(3) inl by (simp add: claimed_def)
  have fields: "etype (claim_slot ty x) = ty"
    "(width (claim_slot ty x), height (claim_slot ty x), collMask (claim_slot ty x)) = default_hitbox ty"
    "data (claim_slot ty x) = 0" "timer (claim_slot ty x) = 0" for x
    by (simp_all add: claim_slot_def split: prod.splits)
  from alloc ok(1) inb slot fields claim_slot_active [of ty]
  show ?thesis by simp
qed

theorem entity_alloc_postcondition_witness:
  "length (entities (freed 2 moving_enemy_pool)) = MAX_ENTITIES
   \<and> slot_range ENT_TYPE_ENEMY_BASIC = (2, 26)
   \<and> \<not> is_active (entities (freed 2 moving_enemy_pool) ! 2)
   \<and> (\<exists>r p'. entity_alloc ENT_TYPE_ENEMY_BASIC (freed 2 moving_enemy_pool) = Inr (r, p')
        \<and> r = 2
        \<and> is_active (entities p' ! 2)
        \<and> (width (entities p' ! 2), height (entities p' ! 2), collMask (entities p' ! 2))
            = (24, 24, COLL_ENEMY)
        \<and> data (entities p' ! 2) = 0 \<and> timer (entities p' ! 2) = 0)"
proof -
  have len: "length (entities (freed 2 moving_enemy_pool)) = MAX_ENTITIES"
    by (simp add: len_moving)
  have rng: "slot_range ENT_TYPE_ENEMY_BASIC = (2, 26)"
    by (simp add: slot_range_def)
  have fr: "\<not> is_active (entities (freed 2 moving_enemy_pool) ! 2)"
    by (rule freed_inactive) (simp add: len_moving)
  have al: "entity_alloc ENT_TYPE_ENEMY_BASIC (freed 2 moving_enemy_pool)
       = Inr (2, claimed ENT_TYPE_ENEMY_BASIC 2 (freed 2 moving_enemy_pool))"
    by (simp add: entity_alloc_def slot_range_def claimed_def freed_def moving_enemy_pool_def
        enemy_pool_def entity_initPool_def arr_read_def is_active_def)
  have dh: "default_hitbox ENT_TYPE_ENEMY_BASIC = (24, 24, COLL_ENEMY)"
    by (simp add: default_hitbox_def)
  from entity_alloc_postcondition [OF len rng _ _ fr] al dh len rng fr
  show ?thesis by auto
qed

section \<open>First fit\<close>

lemma filled_unfold:
  "filled ty 1 = claimed ty 0 entity_initPool"
  "filled ty 2 = claimed ty 1 (filled ty 1)"
  "filled ty 3 = claimed ty 2 (filled ty 2)"
  "filled ty 4 = claimed ty 3 (filled ty 3)"
  by (simp_all add: eval_nat_numeral)

lemma flags_claim_slot: "flags (claim_slot ty e) = 3"
  by (simp add: claim_slot_def split: prod.splits)

lemma scan4:
  "alloc_scan ty 0 4 (filled ty 0) = Inr (0, filled ty 1)"
  "alloc_scan ty 0 4 (filled ty 1) = Inr (1, filled ty 2)"
  "alloc_scan ty 0 4 (filled ty 2) = Inr (2, filled ty 3)"
  "alloc_scan ty 0 4 (filled ty 3) = Inr (3, filled ty 4)"
  "alloc_scan ty 0 4 (filled ty 4) = Inr (- 1, filled ty 4)"
  by (simp_all add: filled_unfold claimed_def entity_initPool_def arr_read_def flags_claim_slot
     is_active_def zero_entity_def)

lemma reuse4:
  "entity_free 1 (filled ty 4) = Inr (freed 1 (filled ty 4))"
  "freed 1 (filled ty 4) \<noteq> filled ty 4"
  "alloc_scan ty 0 4 (freed 1 (filled ty 4)) = Inr (1, claimed ty 1 (freed 1 (filled ty 4)))"
proof -
  show "entity_free 1 (filled ty 4) = Inr (freed 1 (filled ty 4))"
    by (simp add: entity_free_def filled_unfold claimed_def entity_initPool_def arr_read_def flags_claim_slot
     is_active_def zero_entity_def freed_def)
  have "entityCount (freed 1 (filled ty 4)) \<noteq> entityCount (filled ty 4)"
    by (simp add: filled_unfold claimed_def entity_initPool_def freed_def)
  then show "freed 1 (filled ty 4) \<noteq> filled ty 4" by auto
  show "alloc_scan ty 0 4 (freed 1 (filled ty 4)) = Inr (1, claimed ty 1 (freed 1 (filled ty 4)))"
    by (simp add: filled_unfold claimed_def entity_initPool_def arr_read_def flags_claim_slot
     is_active_def zero_entity_def freed_def)
qed

text \<open>
  C5. First fit and capacity: on every pool of the declared size, \<^verbatim>\<open>entity_alloc\<close>
  of a type tag with slot range \<open>[start, e)\<close> returns \<open>-1\<close> and leaves the pool as it
  was when every slot of the range is active; otherwise it returns a slot of the range
  whose active flag is clear and below which every slot of the range is active, and
  claims it. In particular, the scan over a range of four slots returns the slots
  0, 1, 2, 3 in this order from the cleared pool, then \<open>-1\<close>, and after
  \<^verbatim>\<open>entity_free(1)\<close> it returns slot 1 again.
\<close>

theorem entity_alloc_first_fit:
  assumes len: "length (entities p) = MAX_ENTITIES"
    and rng: "slot_range ty = (start, e)"
  shows "(\<exists>r p'. entity_alloc ty p = Inr (r, p') \<and>
            (if \<forall>j. unat start \<le> j \<and> j < unat e \<longrightarrow> is_active (entities p ! j)
             then r = - 1 \<and> p' = p
             else r \<noteq> - 1 \<and> unat start \<le> unat r \<and> unat r < unat e
                  \<and> \<not> is_active (entities p ! unat r)
                  \<and> (\<forall>j. unat start \<le> j \<and> j < unat r \<longrightarrow> is_active (entities p ! j))
                  \<and> p' = claimed ty (unat r) p))
         \<and> alloc_scan ty 0 4 (filled ty 0) = Inr (0, filled ty 1)
         \<and> alloc_scan ty 0 4 (filled ty 1) = Inr (1, filled ty 2)
         \<and> alloc_scan ty 0 4 (filled ty 2) = Inr (2, filled ty 3)
         \<and> alloc_scan ty 0 4 (filled ty 3) = Inr (3, filled ty 4)
         \<and> alloc_scan ty 0 4 (filled ty 4) = Inr (- 1, filled ty 4)
         \<and> entity_free 1 (filled ty 4) = Inr (freed 1 (filled ty 4))
         \<and> alloc_scan ty 0 4 (freed 1 (filled ty 4))
             = Inr (1, claimed ty 1 (freed 1 (filled ty 4)))"
proof -
  from entity_alloc_result [OF len rng] obtain r p' where
    alloc: "entity_alloc ty p = Inr (r, p')" and
    cases: "(r = - 1 \<and> p' = p
             \<and> (\<forall>j. unat start \<le> j \<and> j < unat e \<longrightarrow> is_active (entities p ! j)))
            \<or> (r \<noteq> - 1 \<and> unat start \<le> unat r \<and> unat r < unat e
                \<and> \<not> is_active (entities p ! unat r)
                \<and> (\<forall>j. unat start \<le> j \<and> j < unat r \<longrightarrow> is_active (entities p ! j))
                \<and> p' = claimed ty (unat r) p)" by blast
  have "if \<forall>j. unat start \<le> j \<and> j < unat e \<longrightarrow> is_active (entities p ! j)
        then r = - 1 \<and> p' = p
        else r \<noteq> - 1 \<and> unat start \<le> unat r \<and> unat r < unat e
             \<and> \<not> is_active (entities p ! unat r)
             \<and> (\<forall>j. unat start \<le> j \<and> j < unat r \<longrightarrow> is_active (entities p ! j))
             \<and> p' = claimed ty (unat r) p"
    using cases by (cases "\<forall>j. unat start \<le> j \<and> j < unat e \<longrightarrow> is_active (entities p ! j)") auto
  with alloc have general: "\<exists>r p'. entity_alloc ty p = Inr (r, p') \<and>
            (if \<forall>j. unat start \<le> j \<and> j < unat e \<longrightarrow> is_active (entities p ! j)
             then r = - 1 \<and> p' = p
             else r \<noteq> - 1 \<and> unat start \<le> unat r \<and> unat r < unat e
                  \<and> \<not> is_active (entities p ! unat r)
                  \<and> (\<forall>j. unat start \<le> j \<and> j < unat r \<longrightarrow> is_active (entities p ! j))
                  \<and> p' = claimed ty (unat r) p)"
    by blast
  show ?thesis
    by (intro conjI general scan4 reuse4 (1) reuse4 (3))
qed

theorem entity_alloc_first_fit_witness:
  "length (entities enemy_pool) = MAX_ENTITIES
   \<and> slot_range ENT_TYPE_ENEMY_BASIC = (2, 26)
   \<and> is_active (entities enemy_pool ! 2)
   \<and> entity_alloc ENT_TYPE_ENEMY_BASIC enemy_pool
       = Inr (3, claimed ENT_TYPE_ENEMY_BASIC 3 enemy_pool)"
proof -
  have rng: "slot_range ENT_TYPE_ENEMY_BASIC = (2, 26)"
    by (simp add: slot_range_def)
  have act: "is_active (entities enemy_pool ! 2)"
    by (simp add: enemy_pool_def claimed_def entity_initPool_def claim_slot_active)
  have free3: "\<not> is_active (entities enemy_pool ! 3)"
    by (simp add: enemy_pool_def claimed_def entity_initPool_def is_active_def zero_entity_def)
  have notall: "\<not> (\<forall>j. unat (2 :: u8) \<le> j \<and> j < unat (26 :: u8) \<longrightarrow> is_active (entities enemy_pool ! j))"
    using free3 by (auto intro: exI [of _ 3])
  from entity_alloc_first_fit [OF len_enemy_pool rng, THEN conjunct1]
  obtain r p' where res: "entity_alloc ENT_TYPE_ENEMY_BASIC enemy_pool = Inr (r, p')"
    and body: "if \<forall>j. unat (2 :: u8) \<le> j \<and> j < unat (26 :: u8) \<longrightarrow> is_active (entities enemy_pool ! j)
             then r = - 1 \<and> p' = enemy_pool
             else r \<noteq> - 1 \<and> unat (2 :: u8) \<le> unat r \<and> unat r < unat (26 :: u8)
                  \<and> \<not> is_active (entities enemy_pool ! unat r)
                  \<and> (\<forall>j. unat (2 :: u8) \<le> j \<and> j < unat r \<longrightarrow> is_active (entities enemy_pool ! j))
                  \<and> p' = claimed ENT_TYPE_ENEMY_BASIC (unat r) enemy_pool"
    by blast
  from body have
    lo: "unat (2 :: u8) \<le> unat r" and free: "\<not> is_active (entities enemy_pool ! unat r)"
    and first: "\<forall>j. unat (2 :: u8) \<le> j \<and> j < unat r \<longrightarrow> is_active (entities enemy_pool ! j)"
    and p': "p' = claimed ENT_TYPE_ENEMY_BASIC (unat r) enemy_pool"
    unfolding if_not_P [OF notall] by blast+
  have "unat r = 3"
  proof (rule ccontr)
    assume ne: "unat r \<noteq> 3"
    from lo free act have "unat r \<noteq> 2" by auto
    with lo ne have "3 < unat r" by simp
    with first have "is_active (entities enemy_pool ! 3)" by simp
    with free3 show False by simp
  qed
  then have "unat r = unat (3 :: u8)" by simp
  then have "r = 3" by (simp only: word_unat_eq_iff)
  with res p' \<open>unat r = 3\<close> len_enemy_pool rng act show ?thesis by simp
qed

section \<open>The count of active entities\<close>

lemma filter_update_count:
  "k < length xs \<Longrightarrow>
   length (filter P (xs[k := v])) + (if P (xs ! k) then 1 else 0)
     = length (filter P xs) + (if P v then 1 else 0)"
proof (induction xs arbitrary: k)
  case Nil
  then show ?case by simp
next
  case (Cons x xs)
  show ?case
  proof (cases k)
    case 0
    then show ?thesis by simp
  next
    case (Suc m)
    with Cons.prems have "m < length xs" by simp
    from Cons.IH [OF this] Suc show ?thesis by simp
  qed
qed

lemma active_count_flags:
  "map flags (entities p) = map flags (entities q) \<Longrightarrow> active_count p = active_count q"
proof -
  have "length (filter is_active es) = length (filter (\<lambda>f. f AND ENT_ACTIVE \<noteq> 0) (map flags es))" for es
    by (induction es) (simp_all add: is_active_def)
  then have "active_count r = length (filter (\<lambda>f. f AND ENT_ACTIVE \<noteq> 0) (map flags (entities r)))" for r
    by (simp only: active_count_def)
  then show "map flags (entities p) = map flags (entities q) \<Longrightarrow> active_count p = active_count q"
    by (simp only:)
qed

lemma active_count_le: "active_count p \<le> length (entities p)"
  by (simp add: active_count_def)

lemma active_count_claimed:
  assumes "k < length (entities p)" and "\<not> is_active (entities p ! k)"
  shows "active_count (claimed ty k p) = Suc (active_count p)"
  using filter_update_count [OF assms(1), of is_active "claim_slot ty (entities p ! k)"] assms(2)
  by (simp add: active_count_def claimed_def claim_slot_active)

lemma active_count_freed:
  assumes "k < length (entities p)" and "is_active (entities p ! k)"
  shows "Suc (active_count (freed k p)) = active_count p"
  using filter_update_count [OF assms(1), of is_active "(entities p ! k)\<lparr>flags := 0, etype := ENT_TYPE_NONE\<rparr>"] assms(2)
  by (simp add: active_count_def freed_def is_active_def)

lemma pool_inv_init: "pool_inv entity_initPool"
  by (simp add: pool_inv_def active_count_def entity_initPool_def is_active_def zero_entity_def)

lemma pool_inv_claimed:
  assumes inv: "pool_inv p" and k: "k < MAX_ENTITIES" and free: "\<not> is_active (entities p ! k)"
  shows "pool_inv (claimed ty k p)"
proof -
  from inv have len: "length (entities p) = MAX_ENTITIES" and cnt: "unat (entityCount p) = active_count p"
    by (simp_all add: pool_inv_def)
  from k len have kl: "k < length (entities p)" by simp
  have ac: "active_count (claimed ty k p) = Suc (active_count p)"
    using kl free by (rule active_count_claimed)
  have "active_count (claimed ty k p) \<le> MAX_ENTITIES"
    using active_count_le [of "claimed ty k p"] len by simp
  with ac have small: "active_count p < MAX_ENTITIES" by simp
  have "unat (entityCount p) + unat (1 :: u8) < 2 ^ LENGTH(8)"
    using small cnt by simp
  then have "unat (entityCount p + 1) = unat (entityCount p) + 1"
    by (simp add: unat_add_lem [THEN iffD1])
  then have "unat (entityCount (claimed ty k p)) = Suc (active_count p)"
    using cnt by (simp add: claimed_def)
  with ac len show ?thesis by (simp add: pool_inv_def)
qed

lemma pool_inv_freed:
  assumes inv: "pool_inv p" and k: "k < MAX_ENTITIES" and act: "is_active (entities p ! k)"
  shows "pool_inv (freed k p)"
proof -
  from inv have len: "length (entities p) = MAX_ENTITIES" and cnt: "unat (entityCount p) = active_count p"
    by (simp_all add: pool_inv_def)
  from k len have kl: "k < length (entities p)" by simp
  have ac: "Suc (active_count (freed k p)) = active_count p"
    using kl act by (rule active_count_freed)
  with cnt have pos: "0 < unat (entityCount p)" by simp
  then have nz: "entityCount p \<noteq> 0" by auto
  then have gt: "entityCount p > 0" by (simp add: word_greater_zero_iff)
  have "unat (entityCount p - 1) = unat (entityCount p) - 1"
    using nz by (simp add: unat_minus_one)
  then have "unat (entityCount (freed k p)) = active_count p - 1"
    using cnt gt by (simp add: freed_def)
  with ac len show ?thesis by (simp add: pool_inv_def)
qed

lemma reachable_inv: "reachable p \<Longrightarrow> pool_inv p"
proof (induction rule: reachable.induct)
  case init
  show ?case by (rule pool_inv_init)
next
  case (alloc p ty r p')
  then have len: "length (entities p) = MAX_ENTITIES" by (simp add: pool_inv_def)
  obtain start e where rng: "slot_range ty = (start, e)" by (cases "slot_range ty")
  from entity_alloc_result [OF len rng] alloc.hyps(2)
  have "p' = p \<or> (unat r < unat e \<and> \<not> is_active (entities p ! unat r) \<and> p' = claimed ty (unat r) p)"
    by auto
  then show ?case
  proof
    assume "p' = p" with alloc.IH show ?thesis by simp
  next
    assume b: "unat r < unat e \<and> \<not> is_active (entities p ! unat r) \<and> p' = claimed ty (unat r) p"
    with slot_range_bounds [OF rng] have "unat r < MAX_ENTITIES" by simp
    with alloc.IH b show ?thesis by (simp add: pool_inv_claimed)
  qed
next
  case (free p slot p')
  then have len: "length (entities p) = MAX_ENTITIES" by (simp add: pool_inv_def)
  from free.hyps(2) have "p' = (if unat slot < MAX_ENTITIES \<and> is_active (entities p ! unat slot)
          then freed (unat slot) p else p)"
    by (simp add: entity_free_cases [OF len])
  with free.IH show ?case by (simp add: pool_inv_freed)
next
  case (external p es)
  with active_count_flags [of "p\<lparr>entities := es\<rparr>" p] map_eq_imp_length_eq [of flags es flags "entities p"]
  show ?case by (simp add: pool_inv_def)
qed

text \<open>
  C9. In every pool reachable from \<^verbatim>\<open>entity_initPool\<close> by calls of
  \<^verbatim>\<open>entity_alloc\<close> and \<^verbatim>\<open>entity_free\<close> (and by writes that leave the flags alone),
  \<^verbatim>\<open>entityCount\<close> is the number of entities whose \<^verbatim>\<open>ENT_ACTIVE\<close> flag is set.
\<close>

theorem entityCount_invariant:
  "reachable p \<Longrightarrow> unat (entityCount p) = active_count p"
  using reachable_inv [of p] by (simp add: pool_inv_def)

theorem entityCount_invariant_witness:
  "reachable enemy_pool \<and> unat (entityCount enemy_pool) = active_count enemy_pool
   \<and> active_count enemy_pool = 1"
proof -
  have r: "reachable enemy_pool"
    using reachable.init alloc_enemy_init by (rule reachable.alloc)
  have "entityCount enemy_pool = 1"
    by (simp add: enemy_pool_def claimed_def entity_initPool_def)
  with entityCount_invariant [OF r] r show ?thesis by simp
qed

lemma reachable_no_fault:
  assumes "reachable p"
  shows "(\<exists>r p'. entity_alloc ty p = Inr (r, p')) \<and> (\<exists>p'. entity_free slot p = Inr p')"
proof -
  from reachable_inv [OF assms] have len: "length (entities p) = MAX_ENTITIES"
    by (simp add: pool_inv_def)
  obtain start e where rng: "slot_range ty = (start, e)" by (cases "slot_range ty")
  from entity_alloc_result [OF len rng] entity_free_cases [OF len, of slot]
  show ?thesis by blast
qed

section \<open>The cell index\<close>

lemma s16_nonneg_uint:
  fixes w :: s16
  assumes "0 \<le> sint w"
  shows "uint w = sint w"
proof -
  have "sint w < 2 ^ (LENGTH(16) - 1)" by (rule sint_lt)
  then have "sint w < 2 ^ 16" by simp
  with assms have "take_bit 16 (sint w) = sint w" by (simp add: take_bit_int_eq_self)
  then show ?thesis by (simp add: uint_sint)
qed

lemma clamp_px_range:
  assumes "0 < bound" and "bound \<le> 32768"
  shows "0 \<le> sint (clamp_px bound px) \<and> sint (clamp_px bound px) < bound"
proof -
  have "signed_take_bit (LENGTH(16) - 1) (bound - 1) = bound - 1"
    using assms by (intro signed_take_bit_int_eq_self) simp_all
  then have top: "sint (word_of_int (bound - 1) :: s16) = bound - 1"
    by (simp only: sint_sbintrunc')
  show ?thesis
  proof (cases "px <s 0")
    case True
    then show ?thesis using assms by (simp add: clamp_px_def)
  next
    case False
    then have "0 \<le> sint px" by (simp add: word_sless_alt)
    with False top assms show ?thesis by (simp add: clamp_px_def)
  qed
qed

lemma cell_shift:
  fixes px :: s16
  assumes "0 \<le> sint px" and "sint px < 16384"
  shows "unat (ucast (signed_drop_bit SPATIAL_CELL_SHIFT px) :: u8) = nat (sint px div 64)"
proof -
  have s: "sint (signed_drop_bit SPATIAL_CELL_SHIFT px) = sint px div 64"
    by (simp add: sint_signed_drop_bit_eq drop_bit_eq_div)
  with assms have nn: "0 \<le> sint (signed_drop_bit SPATIAL_CELL_SHIFT px)" by simp
  have u: "uint (signed_drop_bit SPATIAL_CELL_SHIFT px) = sint px div 64"
    using s16_nonneg_uint [OF nn] s by simp
  have "sint px div 64 < 256" using assms by simp
  moreover have "0 \<le> sint px div 64" using assms by simp
  ultimately have "take_bit 8 (sint px div 64) = sint px div 64"
    by (simp add: take_bit_int_eq_self)
  then have "uint (ucast (signed_drop_bit SPATIAL_CELL_SHIFT px) :: u8) = sint px div 64"
    using u by (simp add: unsigned_ucast_eq)
  then show ?thesis by (simp only: unat_eq_nat_uint)
qed

lemma cell_coord_eq:
  fixes px :: s16
  assumes "0 \<le> sint px" and "sint px < 64 * uint cells"
  shows "unat (cell_coord cells px) = nat (sint px div 64)"
proof -
  have "uint cells < 2 ^ LENGTH(8)" by (rule unsigned_less)
  then have small: "sint px < 16384" using assms by simp
  have c: "unat (ucast (signed_drop_bit SPATIAL_CELL_SHIFT px) :: u8) = nat (sint px div 64)"
    using assms(1) small by (rule cell_shift)
  have "sint px div 64 < uint cells" using assms by simp
  moreover have "0 \<le> sint px div 64" using assms(1) by simp
  ultimately have "nat (sint px div 64) < nat (uint cells)" by linarith
  then have "nat (sint px div 64) < unat cells" by (simp only: unat_eq_nat_uint)
  with c have "\<not> cells \<le> (ucast (signed_drop_bit SPATIAL_CELL_SHIFT px) :: u8)"
    by (simp add: word_le_nat_alt)
  with c show ?thesis by (simp add: cell_coord_def Let_def)
qed

lemma cell_index_eq:
  "unat (spatial_getCellIndex x y) < SPATIAL_GRID_CELLS
   \<and> unat (spatial_getCellIndex x y)
       = nat (sint (clamp_px MAP_WIDTH (FP_INT16 x)) div 64)
         + 32 * nat (sint (clamp_px MAP_HEIGHT (FP_INT16 y)) div 64)
   \<and> 0 \<le> sint (clamp_px MAP_WIDTH (FP_INT16 x)) \<and> sint (clamp_px MAP_WIDTH (FP_INT16 x)) < MAP_WIDTH
   \<and> 0 \<le> sint (clamp_px MAP_HEIGHT (FP_INT16 y)) \<and> sint (clamp_px MAP_HEIGHT (FP_INT16 y)) < MAP_HEIGHT"
proof -
  let ?px = "clamp_px MAP_WIDTH (FP_INT16 x)"
  let ?py = "clamp_px MAP_HEIGHT (FP_INT16 y)"
  have px: "0 \<le> sint ?px \<and> sint ?px < MAP_WIDTH" by (rule clamp_px_range) simp_all
  have py: "0 \<le> sint ?py \<and> sint ?py < MAP_HEIGHT" by (rule clamp_px_range) simp_all
  have cx: "unat (cell_coord SPATIAL_GRID_W ?px) = nat (sint ?px div 64)"
    using px by (intro cell_coord_eq) simp_all
  have cy: "unat (cell_coord SPATIAL_GRID_H ?py) = nat (sint ?py div 64)"
    using py by (intro cell_coord_eq) simp_all
  have "sint ?px div 64 \<le> 19" using px by presburger
  then have bx: "nat (sint ?px div 64) \<le> 19" by simp
  have "sint ?py div 64 \<le> 13" using py by presburger
  then have by': "nat (sint ?py div 64) \<le> 13" by simp
  have sum: "nat (sint ?px div 64) + 32 * nat (sint ?py div 64) \<le> 435"
    using bx by' by simp
  have "spatial_getCellIndex x y
          = word_of_nat (unat (cell_coord SPATIAL_GRID_W ?px)
              + push_bit SPATIAL_GRID_W_SHIFT (unat (cell_coord SPATIAL_GRID_H ?py)))"
    by (simp only: spatial_getCellIndex_def Let_def)
  also have "\<dots> = word_of_nat (nat (sint ?px div 64) + 32 * nat (sint ?py div 64))"
    by (simp only: cx cy push_bit_eq_mult) simp
  finally have "unat (spatial_getCellIndex x y)
          = (nat (sint ?px div 64) + 32 * nat (sint ?py div 64)) mod 2 ^ LENGTH(16)"
    by (simp only: unat_of_nat)
  also have "\<dots> = nat (sint ?px div 64) + 32 * nat (sint ?py div 64)"
    using sum by simp
  finally have idx: "unat (spatial_getCellIndex x y)
          = nat (sint ?px div 64) + 32 * nat (sint ?py div 64)" .
  with sum px py show ?thesis by simp
qed

text \<open>
  C6. \<^verbatim>\<open>spatial_getCellIndex\<close> is a total function of the position: for every pair
  of \<^verbatim>\<open>s32\<close> coordinates the pixel position (the 8.8 value shifted and stored in an
  \<^verbatim>\<open>s16\<close>) is clamped into \<open>[0, MAP_WIDTH) \<times> [0, MAP_HEIGHT)\<close> first, the index is
  computed from the clamped position, and it is below \<^verbatim>\<open>SPATIAL_GRID_CELLS\<close>.
\<close>

theorem spatial_getCellIndex_in_grid:
  "unat (spatial_getCellIndex x y) < SPATIAL_GRID_CELLS
   \<and> unat (spatial_getCellIndex x y)
       = nat (sint (clamp_px MAP_WIDTH (FP_INT16 x)) div 64)
         + 32 * nat (sint (clamp_px MAP_HEIGHT (FP_INT16 y)) div 64)
   \<and> 0 \<le> sint (clamp_px MAP_WIDTH (FP_INT16 x)) \<and> sint (clamp_px MAP_WIDTH (FP_INT16 x)) < MAP_WIDTH
   \<and> 0 \<le> sint (clamp_px MAP_HEIGHT (FP_INT16 y)) \<and> sint (clamp_px MAP_HEIGHT (FP_INT16 y)) < MAP_HEIGHT"
  by (rule cell_index_eq)

section \<open>Index guards\<close>

lemmas cell_index_defs =
  spatial_getCellIndex_def Let_def clamp_px_def cell_coord_def FP_INT16_def word_sless_alt

lemma entity_free_out_of_range: "MAX_ENTITIES \<le> unat slot \<Longrightarrow> entity_free slot p = Inr p"
  by (simp add: entity_free_def)

lemma spatial_getFirstInCell_out_of_range:
  "SPATIAL_GRID_CELLS \<le> unat cellIndex \<Longrightarrow> spatial_getFirstInCell cellIndex g = Inr 0xFF"
  by (simp add: spatial_getFirstInCell_def)

lemma spatial_insert_faults:
  assumes "length (firstInCell g) = SPATIAL_GRID_CELLS" and "length (nextEntity g) = MAX_ENTITIES"
    and "MAX_ENTITIES \<le> unat slot"
  shows "spatial_insert slot x y g = Inl (OutOfBounds (unat slot))"
proof -
  have "unat (spatial_getCellIndex x y) < length (firstInCell g)"
    using cell_index_eq [of x y] assms(1) by simp
  then show ?thesis using assms(2,3)
    by (simp add: spatial_insert_def Let_def arr_read_def arr_write_def)
qed

text \<open>
  C2. \<^verbatim>\<open>entity_free\<close> and \<^verbatim>\<open>spatial_getFirstInCell\<close> guard their index, and an index
  out of range leaves the pool alone or gives \<^verbatim>\<open>SPATIAL_NULL\<close>. \<^verbatim>\<open>spatial_insert\<close>
  has no guard: with slot 200 it writes \<^verbatim>\<open>nextEntity[200]\<close>, outside the 64 elements of
  the array.
\<close>

theorem spatial_insert_out_of_range:
  "entity_free 200 enemy_pool = Inr enemy_pool
   \<and> spatial_getFirstInCell 600 spatial_clear = Inr 0xFF
   \<and> spatial_insert 200 0 0 spatial_clear = Inl (OutOfBounds 200)"
  by (simp add: entity_free_out_of_range spatial_getFirstInCell_out_of_range
      spatial_insert_def spatial_clear_def arr_read_def arr_write_def cell_index_defs)

section \<open>The gates\<close>

lemmas gate_defs =
  gate1_def gate2_def gate3_def manhattan_max_def delta_x_def delta_y_def half_extent_def
  abs16_def FP_INT16_def word_sless_alt Let_def

lemma scene_grid_built:
  "spatial_insert 0 0x8C00 0x8C00 spatial_clear
     = Inr \<lparr>firstInCell = (firstInCell spatial_clear)[66 := 0],
            nextEntity = (nextEntity spatial_clear)[0 := SPATIAL_NULL]\<rparr>"
  "spatial_insert 58 0xAA00 0xAA00
       \<lparr>firstInCell = (firstInCell spatial_clear)[66 := 0],
        nextEntity = (nextEntity spatial_clear)[0 := SPATIAL_NULL]\<rparr>
     = Inr scene_grid"
  by (simp_all add: spatial_insert_def spatial_clear_def arr_read_def arr_write_def
      cell_index_defs scene_grid_def)

lemma scene_player: "scene_entities ! 0
    = (claim_slot ENT_TYPE_PLAYER zero_entity)\<lparr>xpos := 0x8C00, ypos := 0x8C00\<rparr>"
  by (simp add: scene_entities_def entity_initPool_def)

lemma scene_tower: "scene_entities ! 58
    = (claim_slot ENT_TYPE_TOWER_BASIC zero_entity)\<lparr>xpos := 0xAA00, ypos := 0xAA00\<rparr>"
  by (simp add: scene_entities_def entity_initPool_def)

lemma scene_length: "length scene_entities = MAX_ENTITIES"
  by (simp add: scene_entities_def entity_initPool_def)

text \<open>
  Where the threshold of Gate 2 is wide enough: the constant 32 covers every target
  whose half extents sum to at most 33, and for such a target Gate 3 implies Gate 2.
\<close>

lemma half_extent_sint: "sint (half_extent w) = uint w div 2"
proof -
  have b: "uint w < 2 ^ LENGTH(8)" by (rule uint_lt2p)
  have "uint (drop_bit 1 w) = uint w div 2"
    by (simp add: drop_bit_eq_div uint_div)
  moreover have "uint w div 2 < 2 ^ 16" "0 \<le> uint w div 2" using b by simp_all
  ultimately have u: "uint (half_extent w) = uint w div 2"
    by (simp add: half_extent_def unsigned_ucast_eq take_bit_int_eq_self)
  have nn: "0 \<le> uint w div 2" by simp
  have b': "uint w < 256" using b by simp
  have "- (2 ^ 15) \<le> (0 :: int)" by simp
  then have lo: "- (2 ^ 15) \<le> uint w div 2" using nn by (rule order_trans)
  have hi: "uint w div 2 < 2 ^ 15" using b' by simp
  note lo hi
  then have "signed_take_bit 15 (uint w div 2) = uint w div 2"
    by (rule signed_take_bit_int_eq_self)
  then show ?thesis by (simp add: sint_uint u)
qed

lemma half_extent_range: "0 \<le> sint (half_extent w) \<and> sint (half_extent w) \<le> 127"
proof -
  have "uint w < 2 ^ LENGTH(8)" by (rule uint_lt2p)
  then show ?thesis by (simp add: half_extent_sint)
qed

lemma s16_small: "- 32768 \<le> k \<Longrightarrow> k < 32768 \<Longrightarrow> sint (word_of_int k :: s16) = k"
proof -
  assume "- 32768 \<le> k" "k < 32768"
  then have "signed_take_bit (LENGTH(16) - 1) k = k"
    by (intro signed_take_bit_int_eq_self) simp_all
  then show ?thesis by (simp only: sint_sbintrunc')
qed

lemma gate3_imp_gate2_small_target:
  assumes small: "sint (half_extent (width target)) + sint (half_extent (height target)) \<le> 33"
    and g3: "gate3 source target"
  shows "gate2 source target"
proof -
  let ?sw = "sint (half_extent (width source))" and ?sh = "sint (half_extent (height source))"
  let ?tw = "sint (half_extent (width target))" and ?th = "sint (half_extent (height target))"
  note r = half_extent_range [of "width source"] half_extent_range [of "height source"]
    half_extent_range [of "width target"] half_extent_range [of "height target"]
  have cw: "sint (word_of_int (?sw + ?tw) :: s16) = ?sw + ?tw" using r by (intro s16_small) simp_all
  have ch: "sint (word_of_int (?sh + ?th) :: s16) = ?sh + ?th" using r by (intro s16_small) simp_all
  have mm: "sint (manhattan_max source) = ?sw + ?sh + 32"
    unfolding manhattan_max_def using r by (intro s16_small) simp_all
  from g3 have "sint (delta_x source target) < ?sw + ?tw" "sint (delta_y source target) < ?sh + ?th"
    unfolding gate3_def Let_def word_sless_alt cw ch by simp_all
  with small show ?thesis by (simp add: gate2_def mm)
qed

text \<open>
  C1. Gate 2 is not implied by Gate 3: the threshold adds the constant 32 for the
  target, and a tower has the half extents 32 + 32. For the player at pixel (140, 140)
  and a tower at pixel (170, 170) the exact test of Gate 3 holds (30 < 8 + 32 on both
  axes), the Manhattan test of Gate 2 fails (60 is not below 8 + 8 + 32), and the query
  of the player for towers reports no collision.
\<close>

theorem gate2_rejects_overlapping_tower:
  "is_active (scene_entities ! 58)
   \<and> gate1 COLL_TOWER (scene_entities ! 58)
   \<and> gate3 (scene_entities ! 0) (scene_entities ! 58)
   \<and> \<not> gate2 (scene_entities ! 0) (scene_entities ! 58)
   \<and> spatial_checkCollisionThreeGate scene_entities scene_grid 0 COLL_TOWER 0 = Some (Inr 0xFF)"
proof -
  have a: "is_active (scene_entities ! 58)"
    by (simp add: scene_tower is_active_def flags_claim_slot)
  have g1: "gate1 COLL_TOWER (scene_entities ! 58)"
    by (simp add: scene_tower gate_defs claim_slot_def default_hitbox_def)
  have g3: "gate3 (scene_entities ! 0) (scene_entities ! 58)"
    by (simp add: scene_tower scene_player gate_defs claim_slot_def default_hitbox_def)
  have g2: "\<not> gate2 (scene_entities ! 0) (scene_entities ! 58)"
    by (simp add: scene_tower scene_player gate_defs claim_slot_def default_hitbox_def)
  have cell: "spatial_getCellIndex (xpos (scene_entities ! 0)) (ypos (scene_entities ! 0)) = 66"
    by (simp add: scene_player cell_index_defs)
  have q: "spatial_checkCollisionThreeGate scene_entities scene_grid 0 COLL_TOWER 0 = Some (Inr 0xFF)"
    by (simp add: spatial_checkCollisionThreeGate_def cell scene_grid_def spatial_clear_def
        arr_read_def scene_length walk_cell.simps examine_def parity_match_def g2)
  from a g1 g3 g2 q show ?thesis by simp
qed

section \<open>The walk over a cell\<close>

lemma parity_match_iff: "parity_match slot f \<longleftrightarrow> (even slot \<longleftrightarrow> even f)"
  by (simp add: parity_match_def and_one_eq mod2_eq_if)

lemma parity_match_next: "parity_match slot (f + 1) \<longleftrightarrow> \<not> parity_match slot f"
  by (simp add: parity_match_iff)

lemma examine_skipped:
  "\<not> parity_match slot f \<Longrightarrow> examine es s src tmask f slot = Inr False"
  by (simp add: examine_def)

lemma examine_in_bounds:
  "unat slot < length es \<Longrightarrow>
   examine es s (es ! unat s) tmask f slot = Inr (parity_match slot f \<and> passes es s tmask slot)"
  by (simp add: examine_def arr_read_def passes_def)

lemma examine_True:
  "examine es s src tmask f slot = Inr True \<Longrightarrow>
   parity_match slot f \<and> slot \<noteq> s \<and> unat slot < length es \<and> is_active (es ! unat slot)"
  by (auto simp: examine_def arr_read_def split: if_splits)

lemma walk_cell_result:
  "walk_cell es nxt s src tmask f slot = Some y \<Longrightarrow>
   \<forall>r. y = Inr r \<and> r \<noteq> SPATIAL_NULL \<longrightarrow> examine es s src tmask f r = Inr True"
proof (rule walk_cell.raw_induct [where P = "\<lambda>es nxt s src tmask f slot y.
         \<forall>r. y = Inr r \<and> r \<noteq> SPATIAL_NULL \<longrightarrow> examine es s src tmask f r = Inr True"])
  fix walk es nxt s src tmask f slot y
  assume ih: "\<And>es nxt s src tmask f slot y. walk es nxt s src tmask f slot = Some y \<Longrightarrow>
          \<forall>r. y = Inr r \<and> r \<noteq> SPATIAL_NULL \<longrightarrow> examine es s src tmask f r = Inr True"
    and body: "(if slot \<noteq> SPATIAL_NULL then
        (case examine es s src tmask f slot of
           Inl f \<Rightarrow> Some (Inl f)
         | Inr hit \<Rightarrow>
             if hit then Some (Inr slot)
             else (case arr_read nxt (unat slot) of
                     Inl f \<Rightarrow> Some (Inl f)
                   | Inr n \<Rightarrow> walk es nxt s src tmask f n))
      else Some (Inr 0xFF)) = Some y"
  show "\<forall>r. y = Inr r \<and> r \<noteq> SPATIAL_NULL \<longrightarrow> examine es s src tmask f r = Inr True"
  proof (cases "slot = SPATIAL_NULL")
    case True
    with body show ?thesis by auto
  next
    case ne: False
    show ?thesis
    proof (cases "examine es s src tmask f slot")
      case (Inl e)
      with ne body show ?thesis by auto
    next
      case (Inr hit)
      show ?thesis
      proof (cases hit)
        case True
        with ne Inr body show ?thesis by auto
      next
        case False
        show ?thesis
        proof (cases "arr_read nxt (unat slot)")
          case (Inl e)
          with ne Inr False body show ?thesis by auto
        next
          case n: (Inr n)
          with ne Inr False body have "walk es nxt s src tmask f n = Some y" by simp
          then show ?thesis by (rule ih)
        qed
      qed
    qed
  qed
qed

lemma walk_cell_skip:
  "cell_path nxt a pre t \<Longrightarrow> \<forall>u\<in>set pre. examine es s src tmask f u = Inr False \<Longrightarrow>
   walk_cell es nxt s src tmask f a = walk_cell es nxt s src tmask f t"
proof (induction pre arbitrary: a)
  case Nil
  then show ?case by simp
next
  case (Cons u us)
  then have a: "a = u" and ne: "u \<noteq> SPATIAL_NULL" and inb: "unat u < length nxt"
    and rest: "cell_path nxt (nxt ! unat u) us t"
    and ex: "examine es s src tmask f u = Inr False"
    and exs: "\<forall>v\<in>set us. examine es s src tmask f v = Inr False"
    by simp_all
  have "walk_cell es nxt s src tmask f u = walk_cell es nxt s src tmask f (nxt ! unat u)"
    using ne inb ex by (subst walk_cell.simps) (simp add: arr_read_def)
  also have "\<dots> = walk_cell es nxt s src tmask f t"
    using rest exs by (rule Cons.IH)
  finally show ?case using a by simp
qed

lemma walk_cell_hit:
  "t \<noteq> SPATIAL_NULL \<Longrightarrow> examine es s src tmask f t = Inr True \<Longrightarrow>
   walk_cell es nxt s src tmask f t = Some (Inr t)"
  by (subst walk_cell.simps) simp

lemma walk_cell_reaches:
  assumes "cell_path nxt a pre t"
    and "\<forall>u\<in>set pre. unat u < length es"
    and "unat s < length es"
  shows "walk_cell es nxt s (es ! unat s) tmask f a = walk_cell es nxt s (es ! unat s) tmask f t
       \<or> (\<exists>r. r \<noteq> SPATIAL_NULL \<and> walk_cell es nxt s (es ! unat s) tmask f a = Some (Inr r))"
  using assms(1,2)
proof (induction pre arbitrary: a)
  case Nil
  then show ?case by simp
next
  case (Cons u us)
  then have a: "a = u" and ne: "u \<noteq> SPATIAL_NULL" and inb: "unat u < length nxt"
    and rest: "cell_path nxt (nxt ! unat u) us t"
    and ue: "unat u < length es" and use: "\<forall>v\<in>set us. unat v < length es"
    by simp_all
  show ?case
  proof (cases "parity_match u f \<and> passes es s tmask u")
    case True
    then have "examine es s (es ! unat s) tmask f u = Inr True"
      using ue by (simp add: examine_in_bounds)
    with ne a have "walk_cell es nxt s (es ! unat s) tmask f a = Some (Inr u)"
      by (simp add: walk_cell_hit)
    with ne show ?thesis by blast
  next
    case False
    then have "examine es s (es ! unat s) tmask f u = Inr False"
      using ue by (simp add: examine_in_bounds)
    then have "walk_cell es nxt s (es ! unat s) tmask f u
                 = walk_cell es nxt s (es ! unat s) tmask f (nxt ! unat u)"
      using ne inb by (subst walk_cell.simps) (simp add: arr_read_def)
    with Cons.IH [OF rest use] a show ?thesis by simp
  qed
qed

lemma query_result:
  assumes "spatial_checkCollisionThreeGate es g s tmask f = Some (Inr r)" and "r \<noteq> SPATIAL_NULL"
  shows "unat s < length es \<and> examine es s (es ! unat s) tmask f r = Inr True"
proof -
  from assms(1) have src: "unat s < length es"
    by (auto simp: spatial_checkCollisionThreeGate_def arr_read_def split: if_splits)
  with assms(1) obtain head where
    "walk_cell es (nextEntity g) s (es ! unat s) tmask f head = Some (Inr r)"
    by (auto simp: spatial_checkCollisionThreeGate_def arr_read_def split: if_splits sum.splits)
  from walk_cell_result [OF this] assms(2) src show ?thesis by simp
qed

text \<open>
  On every frame of the target's parity the query reports a collision of the source:
  the target itself or a passing slot in front of it.
\<close>

lemma staggering_detects_within_two_frames:
  assumes src: "unat sourceSlot < length es"
    and head: "arr_read (firstInCell g)
                 (unat (spatial_getCellIndex (xpos (es ! unat sourceSlot)) (ypos (es ! unat sourceSlot))))
               = Inr head"
    and path: "cell_path (nextEntity g) head pre t"
    and t: "t \<noteq> SPATIAL_NULL" "unat t < length es" "passes es sourceSlot targetMask t"
    and pre: "\<forall>u\<in>set pre. unat u < length es"
    and f: "parity_match t f"
  shows "\<exists>r. r \<noteq> SPATIAL_NULL
           \<and> spatial_checkCollisionThreeGate es g sourceSlot targetMask f = Some (Inr r)"
proof -
  have q: "spatial_checkCollisionThreeGate es g sourceSlot targetMask f
        = walk_cell es (nextEntity g) sourceSlot (es ! unat sourceSlot) targetMask f head"
    using src head by (simp add: spatial_checkCollisionThreeGate_def arr_read_def)
  have hit: "walk_cell es (nextEntity g) sourceSlot (es ! unat sourceSlot) targetMask f t = Some (Inr t)"
    using t f by (intro walk_cell_hit) (simp_all add: examine_in_bounds)
  from walk_cell_reaches [OF path pre src, of targetMask f] hit t(1) q show ?thesis by auto
qed

section \<open>The query on a pair of entities\<close>

lemma pair_grid_built:
  "spatial_insert 1 0x6E00 0x6400 spatial_clear
     = Inr \<lparr>firstInCell = (firstInCell spatial_clear)[33 := 1],
            nextEntity = (nextEntity spatial_clear)[1 := SPATIAL_NULL]\<rparr>"
  "spatial_insert 0 0x6400 0x6400
       \<lparr>firstInCell = (firstInCell spatial_clear)[33 := 1],
        nextEntity = (nextEntity spatial_clear)[1 := SPATIAL_NULL]\<rparr>
     = Inr pair_grid"
  by (simp_all add: spatial_insert_def spatial_clear_def arr_read_def arr_write_def
      cell_index_defs word_le_nat_alt pair_grid_def)

lemma pair_player: "pair_entities ! 0
    = (claim_slot ENT_TYPE_PLAYER zero_entity)\<lparr>xpos := 0x6400, ypos := 0x6400\<rparr>"
  by (simp add: pair_entities_def entity_initPool_def)

lemma pair_fenrir: "pair_entities ! Suc 0
    = (claim_slot ENT_TYPE_FENRIR zero_entity)\<lparr>xpos := 0x6E00, ypos := 0x6400\<rparr>"
  by (simp add: pair_entities_def entity_initPool_def)

lemma pair_length: "length pair_entities = MAX_ENTITIES"
  by (simp add: pair_entities_def entity_initPool_def)

lemma pair_cell:
  "spatial_getCellIndex (xpos (pair_entities ! 0)) (ypos (pair_entities ! 0)) = 33"
  by (simp add: pair_player cell_index_defs word_le_nat_alt)

lemma pair_head:
  "arr_read (firstInCell pair_grid)
     (unat (spatial_getCellIndex (xpos (pair_entities ! unat (0 :: u8)))
                                 (ypos (pair_entities ! unat (0 :: u8))))) = Inr 0"
  by (simp add: pair_cell pair_grid_def spatial_clear_def arr_read_def)

lemma pair_path: "cell_path (nextEntity pair_grid) 0 [0] 1"
  by (simp add: pair_grid_def spatial_clear_def)

lemma pair_passes: "passes pair_entities 0 COLL_FENRIR 1"
  by (simp add: passes_def pair_player pair_fenrir is_active_def flags_claim_slot gate_defs
      claim_slot_def default_hitbox_def)

lemma pair_self: "\<not> passes pair_entities 0 COLL_FENRIR 0"
  by (simp add: passes_def)

lemma pair_even_frame:
  "spatial_checkCollisionThreeGate pair_entities pair_grid 0 COLL_FENRIR 0 = Some (Inr SPATIAL_NULL)"
  by (simp add: spatial_checkCollisionThreeGate_def pair_cell pair_grid_def spatial_clear_def
      arr_read_def pair_length walk_cell.simps examine_def parity_match_def)

lemma pair_odd_frame:
  "spatial_checkCollisionThreeGate pair_entities pair_grid 0 COLL_FENRIR 1 = Some (Inr 1)"
  using pair_passes
  by (simp add: spatial_checkCollisionThreeGate_def pair_cell pair_grid_def spatial_clear_def
      arr_read_def pair_length walk_cell.simps examine_def parity_match_def passes_def)

text \<open>
  C10. Whenever \<^verbatim>\<open>spatial_checkCollisionThreeGate\<close> returns a slot other than the
  sentinel \<^verbatim>\<open>0xFF\<close>, that slot differs from the source slot, lies inside the entity
  array and names an entity whose \<^verbatim>\<open>ENT_ACTIVE\<close> flag is set.
\<close>

theorem collision_result_valid:
  assumes "spatial_checkCollisionThreeGate es g sourceSlot targetMask frameCount = Some (Inr r)"
    and "r \<noteq> SPATIAL_NULL"
  shows "r \<noteq> sourceSlot \<and> unat r < length es \<and> is_active (es ! unat r)"
  using query_result [OF assms] examine_True by blast

theorem collision_result_valid_witness:
  "spatial_checkCollisionThreeGate pair_entities pair_grid 0 COLL_FENRIR 1 = Some (Inr 1)
   \<and> (1 :: u8) \<noteq> SPATIAL_NULL
   \<and> (1 :: u8) \<noteq> 0 \<and> unat (1 :: u8) < length pair_entities
   \<and> is_active (pair_entities ! unat (1 :: u8))"
proof -
  have ne: "(1 :: u8) \<noteq> SPATIAL_NULL" by simp
  from collision_result_valid [OF pair_odd_frame ne] pair_odd_frame ne show ?thesis by simp
qed

lemma straddle_grid_built:
  "spatial_insert 1 0x4200 0x6400 spatial_clear
     = Inr \<lparr>firstInCell = (firstInCell spatial_clear)[33 := 1],
            nextEntity = (nextEntity spatial_clear)[1 := SPATIAL_NULL]\<rparr>"
  "spatial_insert 0 0x3C00 0x6400
       \<lparr>firstInCell = (firstInCell spatial_clear)[33 := 1],
        nextEntity = (nextEntity spatial_clear)[1 := SPATIAL_NULL]\<rparr>
     = Inr straddle_grid"
  by (simp_all add: spatial_insert_def spatial_clear_def arr_read_def arr_write_def
      cell_index_defs word_le_nat_alt straddle_grid_def)

lemma shadow_grid_built:
  "spatial_insert 0 0x6400 0x6400 spatial_clear
     = Inr \<lparr>firstInCell = (firstInCell spatial_clear)[33 := 0],
            nextEntity = (nextEntity spatial_clear)[0 := SPATIAL_NULL]\<rparr>"
  "spatial_insert 3 0x6800 0x6400
       \<lparr>firstInCell = (firstInCell spatial_clear)[33 := 0],
        nextEntity = (nextEntity spatial_clear)[0 := SPATIAL_NULL]\<rparr>
     = Inr \<lparr>firstInCell = (firstInCell spatial_clear)[33 := 3],
            nextEntity = (nextEntity spatial_clear)[0 := SPATIAL_NULL, 3 := 0]\<rparr>"
  "spatial_insert 5 0x6800 0x6400
       \<lparr>firstInCell = (firstInCell spatial_clear)[33 := 3],
        nextEntity = (nextEntity spatial_clear)[0 := SPATIAL_NULL, 3 := 0]\<rparr>
     = Inr shadow_grid"
  by (simp_all add: spatial_insert_def spatial_clear_def arr_read_def arr_write_def
      cell_index_defs word_le_nat_alt shadow_grid_def)

lemma straddle_slots:
  "straddle_entities ! 0
     = (claim_slot ENT_TYPE_PLAYER zero_entity)\<lparr>xpos := 0x3C00, ypos := 0x6400\<rparr>"
  "straddle_entities ! Suc 0
     = (claim_slot ENT_TYPE_FENRIR zero_entity)\<lparr>xpos := 0x4200, ypos := 0x6400\<rparr>"
  "length straddle_entities = MAX_ENTITIES"
  by (simp_all add: straddle_entities_def entity_initPool_def)

lemma shadow_slots:
  "shadow_entities ! 0
     = (claim_slot ENT_TYPE_PLAYER zero_entity)\<lparr>xpos := 0x6400, ypos := 0x6400\<rparr>"
  "shadow_entities ! 3
     = (claim_slot ENT_TYPE_ENEMY_BASIC zero_entity)\<lparr>xpos := 0x6800, ypos := 0x6400\<rparr>"
  "shadow_entities ! 5
     = (claim_slot ENT_TYPE_ENEMY_BASIC zero_entity)\<lparr>xpos := 0x6800, ypos := 0x6400\<rparr>"
  "length shadow_entities = MAX_ENTITIES"
  by (simp_all add: shadow_entities_def entity_initPool_def)

text \<open>
  C7, as the source has it. The query walks the list of the source's own cell only and
  returns the first match. The player and the companion on the two sides of a cell
  boundary pass the three gates, and the query of the player returns \<^verbatim>\<open>0xFF\<close> on the
  frames 0 and 1. With the enemies 5 and 3 on the player's list, both passing, the
  query returns \<^verbatim>\<open>0xFF\<close> on frame 0 and slot 5 on frame 1: slot 3 is not reported on
  either frame.
\<close>

theorem frame_staggering_counterexample:
  "passes straddle_entities 0 COLL_FENRIR 1
   \<and> spatial_checkCollisionThreeGate straddle_entities straddle_grid 0 COLL_FENRIR 0
       = Some (Inr SPATIAL_NULL)
   \<and> spatial_checkCollisionThreeGate straddle_entities straddle_grid 0 COLL_FENRIR 1
       = Some (Inr SPATIAL_NULL)
   \<and> passes shadow_entities 0 COLL_ENEMY 3
   \<and> spatial_checkCollisionThreeGate shadow_entities shadow_grid 0 COLL_ENEMY 0
       = Some (Inr SPATIAL_NULL)
   \<and> spatial_checkCollisionThreeGate shadow_entities shadow_grid 0 COLL_ENEMY 1
       = Some (Inr 5)"
proof -
  have p1: "passes straddle_entities 0 COLL_FENRIR 1"
    by (simp add: passes_def straddle_slots is_active_def flags_claim_slot gate_defs
        claim_slot_def default_hitbox_def)
  have c1: "spatial_getCellIndex (xpos (straddle_entities ! 0)) (ypos (straddle_entities ! 0)) = 32"
    by (simp add: straddle_slots cell_index_defs word_le_nat_alt)
  have q10: "spatial_checkCollisionThreeGate straddle_entities straddle_grid 0 COLL_FENRIR 0
       = Some (Inr SPATIAL_NULL)"
    by (simp add: spatial_checkCollisionThreeGate_def c1 straddle_grid_def spatial_clear_def
        arr_read_def straddle_slots(3) walk_cell.simps examine_def parity_match_def)
  have q11: "spatial_checkCollisionThreeGate straddle_entities straddle_grid 0 COLL_FENRIR 1
       = Some (Inr SPATIAL_NULL)"
    by (simp add: spatial_checkCollisionThreeGate_def c1 straddle_grid_def spatial_clear_def
        arr_read_def straddle_slots(3) walk_cell.simps examine_def parity_match_def)
  have p3: "passes shadow_entities 0 COLL_ENEMY 3"
    by (simp add: passes_def shadow_slots is_active_def flags_claim_slot gate_defs
        claim_slot_def default_hitbox_def)
  have p5: "passes shadow_entities 0 COLL_ENEMY 5"
    by (simp add: passes_def shadow_slots is_active_def flags_claim_slot gate_defs
        claim_slot_def default_hitbox_def)
  have c2: "spatial_getCellIndex (xpos (shadow_entities ! 0)) (ypos (shadow_entities ! 0)) = 33"
    by (simp add: shadow_slots cell_index_defs word_le_nat_alt)
  have q20: "spatial_checkCollisionThreeGate shadow_entities shadow_grid 0 COLL_ENEMY 0
       = Some (Inr SPATIAL_NULL)"
    by (simp add: spatial_checkCollisionThreeGate_def c2 shadow_grid_def spatial_clear_def
        arr_read_def shadow_slots(4) walk_cell.simps examine_def parity_match_def)
  have q21: "spatial_checkCollisionThreeGate shadow_entities shadow_grid 0 COLL_ENEMY 1
       = Some (Inr 5)"
    using p5
    by (simp add: spatial_checkCollisionThreeGate_def c2 shadow_grid_def spatial_clear_def
        arr_read_def shadow_slots(4) walk_cell.simps examine_def parity_match_def passes_def)
  from p1 q10 q11 p3 q20 q21 show ?thesis by simp
qed

text \<open>
  C7, amended. Frame staggering: a candidate whose slot parity differs from the parity
  of the frame counter is not examined, and a slot that the query returns has the
  parity of the frame. Consequently, for a source and a target \<open>t\<close> that is on the list
  of the source's own cell and passes the self test, the active test and the three
  gates: the query returns \<open>t\<close> on at most one of two consecutive frames, and on at
  least one of two consecutive frames it reports a collision. When no passing slot of
  the parity of \<open>t\<close> stands in front of \<open>t\<close> on the list, the reported slot is \<open>t\<close>
  itself, on exactly the frames of the parity of \<open>t\<close>: of two consecutive frames, on
  one and only one.
\<close>

theorem frame_staggering:
  assumes src: "unat sourceSlot < length es"
    and head: "arr_read (firstInCell g)
                 (unat (spatial_getCellIndex (xpos (es ! unat sourceSlot)) (ypos (es ! unat sourceSlot))))
               = Inr head"
    and path: "cell_path (nextEntity g) head pre t"
    and t: "t \<noteq> SPATIAL_NULL" "unat t < length es" "passes es sourceSlot targetMask t"
    and pre: "\<forall>u\<in>set pre. unat u < length es"
  shows "(\<forall>f u. \<not> parity_match u f \<longrightarrow>
              examine es sourceSlot (es ! unat sourceSlot) targetMask f u = Inr False)
       \<and> (\<forall>f r. spatial_checkCollisionThreeGate es g sourceSlot targetMask f = Some (Inr r)
                \<and> r \<noteq> SPATIAL_NULL \<longrightarrow> parity_match r f)
       \<and> (\<forall>f. \<not> (spatial_checkCollisionThreeGate es g sourceSlot targetMask f = Some (Inr t)
                   \<and> spatial_checkCollisionThreeGate es g sourceSlot targetMask (f + 1) = Some (Inr t)))
       \<and> (\<forall>f. \<exists>r. r \<noteq> SPATIAL_NULL
                \<and> (spatial_checkCollisionThreeGate es g sourceSlot targetMask f = Some (Inr r)
                    \<or> spatial_checkCollisionThreeGate es g sourceSlot targetMask (f + 1) = Some (Inr r)))
       \<and> ((\<forall>u\<in>set pre. \<not> (passes es sourceSlot targetMask u \<and> (even u \<longleftrightarrow> even t))) \<longrightarrow>
            (\<forall>f. (spatial_checkCollisionThreeGate es g sourceSlot targetMask f = Some (Inr t)
                    \<longleftrightarrow> parity_match t f)
                \<and> (spatial_checkCollisionThreeGate es g sourceSlot targetMask f = Some (Inr t))
                    \<noteq> (spatial_checkCollisionThreeGate es g sourceSlot targetMask (f + 1) = Some (Inr t))))"
proof -
  let ?q = "spatial_checkCollisionThreeGate es g sourceSlot targetMask"
  let ?src = "es ! unat sourceSlot"
  have skipped: "\<forall>f u. \<not> parity_match u f \<longrightarrow> examine es sourceSlot ?src targetMask f u = Inr False"
    by (simp add: examine_skipped)
  have only: "\<forall>f r. ?q f = Some (Inr r) \<and> r \<noteq> SPATIAL_NULL \<longrightarrow> parity_match r f"
    using query_result examine_True by blast
  have atmost: "\<not> (?q f = Some (Inr t) \<and> ?q (f + 1) = Some (Inr t))" for f
  proof
    assume both: "?q f = Some (Inr t) \<and> ?q (f + 1) = Some (Inr t)"
    with only t(1) have "parity_match t f" "parity_match t (f + 1)" by blast+
    then show False by (simp add: parity_match_next)
  qed
  have atleast: "\<exists>r. r \<noteq> SPATIAL_NULL \<and> (?q f = Some (Inr r) \<or> ?q (f + 1) = Some (Inr r))" for f
  proof (cases "parity_match t f")
    case True
    from staggering_detects_within_two_frames [OF src head path t pre True]
    show ?thesis by blast
  next
    case False
    then have "parity_match t (f + 1)" by (simp add: parity_match_next)
    from staggering_detects_within_two_frames [OF src head path t pre this]
    show ?thesis by blast
  qed
  have exact: "(?q f = Some (Inr t) \<longleftrightarrow> parity_match t f)
               \<and> (?q f = Some (Inr t)) \<noteq> (?q (f + 1) = Some (Inr t))"
    if first: "\<forall>u\<in>set pre. \<not> (passes es sourceSlot targetMask u \<and> (even u \<longleftrightarrow> even t))" for f
  proof -
    have iff: "?q f' = Some (Inr t) \<longleftrightarrow> parity_match t f'" for f'
    proof
      assume "?q f' = Some (Inr t)"
      with only t(1) show "parity_match t f'" by blast
    next
      assume pm: "parity_match t f'"
      have "examine es sourceSlot ?src targetMask f' u = Inr False" if "u \<in> set pre" for u
      proof -
        from pre first that have inb: "unat u < length es"
          and no: "\<not> (passes es sourceSlot targetMask u \<and> (even u \<longleftrightarrow> even t))" by auto
        from no pm have "\<not> (parity_match u f' \<and> passes es sourceSlot targetMask u)"
          by (auto simp: parity_match_iff)
        with inb show ?thesis by (simp add: examine_in_bounds)
      qed
      then have "walk_cell es (nextEntity g) sourceSlot ?src targetMask f' head
                   = walk_cell es (nextEntity g) sourceSlot ?src targetMask f' t"
        using path by (intro walk_cell_skip) auto
      also have "\<dots> = Some (Inr t)"
        using t pm by (intro walk_cell_hit) (simp_all add: examine_in_bounds)
      finally show "?q f' = Some (Inr t)"
        using src head by (simp add: spatial_checkCollisionThreeGate_def arr_read_def)
    qed
    show ?thesis by (simp add: iff parity_match_next)
  qed
  from skipped only atmost atleast exact show ?thesis by blast
qed

theorem frame_staggering_witness:
  "unat (0 :: u8) < length pair_entities
   \<and> arr_read (firstInCell pair_grid)
        (unat (spatial_getCellIndex (xpos (pair_entities ! unat (0 :: u8)))
                                    (ypos (pair_entities ! unat (0 :: u8))))) = Inr 0
   \<and> cell_path (nextEntity pair_grid) 0 [0] 1
   \<and> (1 :: u8) \<noteq> SPATIAL_NULL \<and> unat (1 :: u8) < length pair_entities
   \<and> passes pair_entities 0 COLL_FENRIR 1
   \<and> \<not> passes pair_entities 0 COLL_FENRIR 0
   \<and> spatial_checkCollisionThreeGate pair_entities pair_grid 0 COLL_FENRIR 0 = Some (Inr SPATIAL_NULL)
   \<and> spatial_checkCollisionThreeGate pair_entities pair_grid 0 COLL_FENRIR 1 = Some (Inr 1)
   \<and> spatial_checkCollisionThreeGate pair_entities pair_grid 0 COLL_FENRIR 2 \<noteq> Some (Inr 1)
   \<and> spatial_checkCollisionThreeGate pair_entities pair_grid 0 COLL_FENRIR 3 = Some (Inr 1)"
proof -
  have src: "unat (0 :: u8) < length pair_entities" by (simp add: pair_length)
  have ne: "(1 :: u8) \<noteq> SPATIAL_NULL" by simp
  have inb: "unat (1 :: u8) < length pair_entities" by (simp add: pair_length)
  have pre: "\<forall>u\<in>set [0 :: u8]. unat u < length pair_entities"
    by (simp add: pair_length)
  have first: "\<forall>u\<in>set [0 :: u8].
                 \<not> (passes pair_entities 0 COLL_FENRIR u \<and> (even u \<longleftrightarrow> even (1 :: u8)))"
    by simp
  note st = frame_staggering [OF src pair_head pair_path ne inb pair_passes pre]
  from st first have iff: "spatial_checkCollisionThreeGate pair_entities pair_grid 0 COLL_FENRIR f = Some (Inr 1)
                \<longleftrightarrow> parity_match 1 f" for f
    by blast
  have f1: "spatial_checkCollisionThreeGate pair_entities pair_grid 0 COLL_FENRIR 1 = Some (Inr 1)"
    by (simp add: iff parity_match_iff)
  have f2: "spatial_checkCollisionThreeGate pair_entities pair_grid 0 COLL_FENRIR 2 \<noteq> Some (Inr 1)"
    by (simp add: iff parity_match_iff)
  have f3: "spatial_checkCollisionThreeGate pair_entities pair_grid 0 COLL_FENRIR 3 = Some (Inr 1)"
    by (simp add: iff parity_match_iff)
  from src pair_head pair_path ne inb pair_passes pair_self pair_even_frame f1 f2 f3
  show ?thesis by simp
qed

end
